theory Spec2Isabelle
  imports Complex_Main "HOL-Library.AList"
begin

section \<open>Data model (shared/schema.ts)\<close>

text \<open>
  The \<open>status\<close> columns of \<open>pdf_jobs\<close> and \<open>pdf_files\<close> are text columns whose
  documented values are pending, processing, completed and failed; these are the only
  values the server ever writes or compares against.
\<close>

datatype Status = Pending | Processing | Completed | Failed

record ConversionOptions =
  applyOcr :: bool
  verifyCompliance :: bool
  optimizeSize :: bool

text \<open>
  \<open>PdfJob\<close> and \<open>PdfFile\<close> are the row types. Both tables have an \<open>id\<close> and a
  \<open>status\<close> column; the fields are prefixed here to keep them apart. Ids and sizes
  are natural numbers, timestamps are clock readings, nullable columns are options.
\<close>

record PdfJob =
  job_id :: nat
  job_status :: Status
  createdAt :: nat
  completedAt :: "nat option"
  options :: ConversionOptions

record PdfFile =
  file_id :: nat
  jobId :: nat
  originalName :: string
  originalSize :: nat
  convertedName :: "string option"
  convertedSize :: "nat option"
  file_status :: Status
  error :: "string option"
  isPdfA :: "bool option"
  hasOcr :: "bool option"
  progress :: "nat option"
  storagePath :: "string option"
  downloadUrl :: "string option"

text \<open>
  \<open>InsertPdfJob\<close>: the job row without id, createdAt and completedAt. (The insert
  schemas make \<open>status\<close> optional; every caller supplies it, and so do the records
  here.)
\<close>

record InsertPdfJob =
  ins_job_status :: Status
  ins_options :: ConversionOptions

text \<open>\<open>InsertPdfFile\<close>: the file row without id. A caller may supply every other column.\<close>

record InsertPdfFile =
  ins_jobId :: nat
  ins_originalName :: string
  ins_originalSize :: nat
  ins_convertedName :: "string option"
  ins_convertedSize :: "nat option"
  ins_file_status :: Status
  ins_error :: "string option"
  ins_isPdfA :: "bool option"
  ins_hasOcr :: "bool option"
  ins_progress :: "nat option"
  ins_storagePath :: "string option"
  ins_downloadUrl :: "string option"

text \<open>
  \<open>Partial<PdfJob>\<close> and \<open>Partial<PdfFile>\<close>: an object literal that assigns some of
  the columns, written as the list of its property assignments. The spread
  \<open>{ ...row, ...updates }\<close> applies them in order.
\<close>

datatype JobUpdate =
    JId nat
  | JStatus Status
  | JCreatedAt nat
  | JCompletedAt "nat option"
  | JOptions ConversionOptions

datatype FileUpdate =
    FId nat
  | FJobId nat
  | FOriginalName string
  | FOriginalSize nat
  | FConvertedName "string option"
  | FConvertedSize "nat option"
  | FStatus Status
  | FError "string option"
  | FIsPdfA "bool option"
  | FHasOcr "bool option"
  | FProgress "nat option"
  | FStoragePath "string option"
  | FDownloadUrl "string option"

fun assignJob :: "JobUpdate \<Rightarrow> PdfJob \<Rightarrow> PdfJob" where
  "assignJob (JId v) j = j\<lparr>job_id := v\<rparr>"
| "assignJob (JStatus v) j = j\<lparr>job_status := v\<rparr>"
| "assignJob (JCreatedAt v) j = j\<lparr>createdAt := v\<rparr>"
| "assignJob (JCompletedAt v) j = j\<lparr>completedAt := v\<rparr>"
| "assignJob (JOptions v) j = j\<lparr>options := v\<rparr>"

fun assignFile :: "FileUpdate \<Rightarrow> PdfFile \<Rightarrow> PdfFile" where
  "assignFile (FId v) f = f\<lparr>file_id := v\<rparr>"
| "assignFile (FJobId v) f = f\<lparr>jobId := v\<rparr>"
| "assignFile (FOriginalName v) f = f\<lparr>originalName := v\<rparr>"
| "assignFile (FOriginalSize v) f = f\<lparr>originalSize := v\<rparr>"
| "assignFile (FConvertedName v) f = f\<lparr>convertedName := v\<rparr>"
| "assignFile (FConvertedSize v) f = f\<lparr>convertedSize := v\<rparr>"
| "assignFile (FStatus v) f = f\<lparr>file_status := v\<rparr>"
| "assignFile (FError v) f = f\<lparr>error := v\<rparr>"
| "assignFile (FIsPdfA v) f = f\<lparr>isPdfA := v\<rparr>"
| "assignFile (FHasOcr v) f = f\<lparr>hasOcr := v\<rparr>"
| "assignFile (FProgress v) f = f\<lparr>progress := v\<rparr>"
| "assignFile (FStoragePath v) f = f\<lparr>storagePath := v\<rparr>"
| "assignFile (FDownloadUrl v) f = f\<lparr>downloadUrl := v\<rparr>"

definition spreadJob :: "PdfJob \<Rightarrow> JobUpdate list \<Rightarrow> PdfJob" where
  "spreadJob j updates = fold assignJob updates j"

definition spreadFile :: "PdfFile \<Rightarrow> FileUpdate list \<Rightarrow> PdfFile" where
  "spreadFile f updates = fold assignFile updates f"

section \<open>Errors\<close>

text \<open>A JavaScript \<open>Error\<close> carries its message.\<close>

datatype error = Error string

fun message :: "error \<Rightarrow> string" where
  "message (Error m) = m"

text \<open>Decimal rendering of an id inside a template string.\<close>

fun showNat :: "nat \<Rightarrow> string" where
  "showNat n =
     (if n < 10 then [char_of (48 + n)]
      else showNat (n div 10) @ [char_of (48 + n mod 10)])"

declare showNat.simps [simp del]

section \<open>MemStorage (server/storage.ts)\<close>

text \<open>
  A JavaScript \<open>Map\<close> keeps its keys in insertion order, and \<open>set\<close> on a key that is
  present replaces the value where it stands: an association list with
  \<^const>\<open>AList.update\<close>. \<open>get\<close> is \<^const>\<open>map_of\<close>.
\<close>

record MemStorage =
  jobs :: "(nat \<times> PdfJob) list"
  files :: "(nat \<times> PdfFile) list"
  jobCurrentId :: nat
  fileCurrentId :: nat

definition newMemStorage :: MemStorage where
  "newMemStorage = \<lparr>jobs = [], files = [], jobCurrentId = 1, fileCurrentId = 1\<rparr>"

definition getPdfJob :: "MemStorage \<Rightarrow> nat \<Rightarrow> PdfJob option" where
  "getPdfJob st i = map_of (jobs st) i"

definition createPdfJob :: "MemStorage \<Rightarrow> InsertPdfJob \<Rightarrow> nat \<Rightarrow> PdfJob \<times> MemStorage" where
  "createPdfJob st job now =
     (let i = jobCurrentId st;
          newJob = \<lparr>job_id = i, job_status = ins_job_status job, createdAt = now,
                    completedAt = None, options = ins_options job\<rparr>
      in (newJob, st\<lparr>jobs := AList.update i newJob (jobs st), jobCurrentId := i + 1\<rparr>))"

text \<open>
  The two update methods throw when the id is unknown. The result pairs what the
  call returns (or throws) with the store it leaves behind.
\<close>

definition updatePdfJob ::
  "MemStorage \<Rightarrow> nat \<Rightarrow> JobUpdate list \<Rightarrow> (error + PdfJob) \<times> MemStorage" where
  "updatePdfJob st i updates =
     (case map_of (jobs st) i of
        None \<Rightarrow> (Inl (Error (''Job with id '' @ showNat i @ '' not found'')), st)
      | Some job \<Rightarrow>
          (let updatedJob = spreadJob job updates
           in (Inr updatedJob, st\<lparr>jobs := AList.update i updatedJob (jobs st)\<rparr>)))"

definition getPdfFile :: "MemStorage \<Rightarrow> nat \<Rightarrow> PdfFile option" where
  "getPdfFile st i = map_of (files st) i"

definition createPdfFile :: "MemStorage \<Rightarrow> InsertPdfFile \<Rightarrow> PdfFile \<times> MemStorage" where
  "createPdfFile st file =
     (let i = fileCurrentId st;
          newFile =
            \<lparr>file_id = i, jobId = ins_jobId file, originalName = ins_originalName file,
             originalSize = ins_originalSize file, convertedName = ins_convertedName file,
             convertedSize = ins_convertedSize file, file_status = ins_file_status file,
             error = ins_error file, isPdfA = ins_isPdfA file, hasOcr = ins_hasOcr file,
             progress = ins_progress file, storagePath = ins_storagePath file,
             downloadUrl = ins_downloadUrl file\<rparr>
            \<lparr>convertedName := None, convertedSize := None, error := None,
             isPdfA := Some False, hasOcr := Some False, progress := Some 0,
             downloadUrl := None\<rparr>
      in (newFile, st\<lparr>files := AList.update i newFile (files st), fileCurrentId := i + 1\<rparr>))"

definition updatePdfFile ::
  "MemStorage \<Rightarrow> nat \<Rightarrow> FileUpdate list \<Rightarrow> (error + PdfFile) \<times> MemStorage" where
  "updatePdfFile st i updates =
     (case map_of (files st) i of
        None \<Rightarrow> (Inl (Error (''File with id '' @ showNat i @ '' not found'')), st)
      | Some file \<Rightarrow>
          (let updatedFile = spreadFile file updates
           in (Inr updatedFile, st\<lparr>files := AList.update i updatedFile (files st)\<rparr>)))"

definition getPdfFilesByJobId :: "MemStorage \<Rightarrow> nat \<Rightarrow> PdfFile list" where
  "getPdfFilesByJobId st j = filter (\<lambda>file. jobId file = j) (map snd (files st))"

text \<open>
  The stores a \<open>MemStorage\<close> object can be in: its fields are private, so every store
  is the constructor's followed by calls of the four mutating methods.
\<close>

inductive reachable_store :: "MemStorage \<Rightarrow> bool" where
  rs_new: "reachable_store newMemStorage"
| rs_createPdfJob: "reachable_store st \<Longrightarrow> reachable_store (snd (createPdfJob st job now))"
| rs_updatePdfJob: "reachable_store st \<Longrightarrow> reachable_store (snd (updatePdfJob st i jups))"
| rs_createPdfFile: "reachable_store st \<Longrightarrow> reachable_store (snd (createPdfFile st file))"
| rs_updatePdfFile: "reachable_store st \<Longrightarrow> reachable_store (snd (updatePdfFile st i fups))"

text \<open>Keys stay below the id counters.\<close>

definition keys_below :: "MemStorage \<Rightarrow> bool" where
  "keys_below st \<longleftrightarrow>
     (\<forall>k j. map_of (jobs st) k = Some j \<longrightarrow> k < jobCurrentId st) \<and>
     (\<forall>k f. map_of (files st) k = Some f \<longrightarrow> k < fileCurrentId st)"

section \<open>Strings and paths\<close>

text \<open>
  Characters are code units below 256 (the messages of the server are Latin-1).
  \<open>toLowerCase\<close> changes the ASCII capitals; that is all the suffix tests below read.
\<close>

definition toLowerChar :: "char \<Rightarrow> char" where
  "toLowerChar c =
     (if (65::nat) \<le> of_char c \<and> of_char c \<le> (90::nat) then char_of (of_char c + (32::nat)) else c)"

definition toLowerCase :: "string \<Rightarrow> string" where
  "toLowerCase s = map toLowerChar s"

definition endsWith :: "string \<Rightarrow> string \<Rightarrow> bool" where
  "endsWith s suffix \<longleftrightarrow>
     length suffix \<le> length s \<and> drop (length s - length suffix) s = suffix"

text \<open>\<open>originalFilename.replace(/\.pdf$/i, '')\<close> followed by the PDF/A suffix (file-utils.ts).\<close>

definition generatePdfaFilename :: "string \<Rightarrow> string" where
  "generatePdfaFilename originalFilename =
     (let baseName =
            (if endsWith (toLowerCase originalFilename) ''.pdf''
             then take (length originalFilename - 4) originalFilename
             else originalFilename)
      in baseName @ ''_PDFA2u.pdf'')"

text \<open>\<open>path.join\<close> and \<open>path.basename\<close> on names without dot segments.\<close>

definition path_join :: "string \<Rightarrow> string \<Rightarrow> string" where
  "path_join dir name = dir @ ''/'' @ name"

definition path_basename :: "string \<Rightarrow> string" where
  "path_basename p = rev (takeWhile (\<lambda>c. c \<noteq> CHR ''/'') (rev p))"

definition outputDir :: string where
  "outputDir = ''tmp/converted''"

section \<open>Messages\<close>

definition msg_no_files :: string where
  "msg_no_files = ''Nenhum arquivo foi enviado''"

definition msg_bad_options :: string where
  "msg_bad_options = ''Op'' @ [CHR 0xE7, CHR 0xF5] @ ''es de convers'' @ [CHR 0xE3] @ ''o inv'' @ [CHR 0xE1] @ ''lidas''"

definition msg_upload_ok :: string where
  "msg_upload_ok = ''Arquivos enviados com sucesso. Processamento iniciado.''"

definition msg_bad_job_id :: string where
  "msg_bad_job_id = ''ID de trabalho inv'' @ [CHR 0xE1] @ ''lido''"

definition msg_job_not_found :: string where
  "msg_job_not_found = ''Trabalho n'' @ [CHR 0xE3] @ ''o encontrado''"

definition msg_not_ready :: string where
  "msg_not_ready = ''Convers'' @ [CHR 0xE3] @ ''o ainda n'' @ [CHR 0xE3] @ ''o foi conclu'' @ [CHR 0xED] @ ''da''"

definition msg_no_job_id :: string where
  "msg_no_job_id = ''ID de trabalho n'' @ [CHR 0xE3] @ ''o especificado''"

definition msg_already_done :: string where
  "msg_already_done = ''Trabalho j'' @ [CHR 0xE1] @ '' foi conclu'' @ [CHR 0xED] @ ''do ou falhou''"

definition msg_cancelled_by_user :: string where
  "msg_cancelled_by_user = ''Trabalho cancelado pelo usu'' @ [CHR 0xE1] @ ''rio''"

definition msg_cancel_ok :: string where
  "msg_cancel_ok = ''Trabalho cancelado com sucesso''"

definition msg_cancel_error :: string where
  "msg_cancel_error = ''Erro ao cancelar trabalho''"

definition msg_only_pdf :: string where
  "msg_only_pdf = ''Apenas arquivos PDF s'' @ [CHR 0xE3] @ ''o permitidos''"

definition msg_process_failed :: string where
  "msg_process_failed = ''Falha ao processar o arquivo PDF''"

section \<open>processFile (server/pdf-processor.ts)\<close>

text \<open>
  What the outside world does to one conversion. OCRmyPDF and Ghostscript failures
  are caught inside \<open>processFile\<close>; the call goes one of four ways.
  \<^item> \<open>GhostscriptOk size\<close>: Ghostscript wrote the output (its size is read by
    \<open>statSync\<close>).
  \<^item> \<open>FallbackOk size\<close>: Ghostscript failed and the fallback (PDFKit, or a copy of the
    input) wrote the output.
  \<^item> \<open>FsThrows\<close>: a file-system call threw, which the outer \<open>catch\<close> turns into the
    one error \<open>processFile\<close> ever throws.
  \<^item> \<open>NeverSettles\<close>: Ghostscript failed and the write stream of the fallback failed.
    The fallback awaits a promise that is resolved by the stream's \<open>finish\<close> event
    and by nothing else: there is no \<open>error\<close> listener and no \<open>reject\<close>. A stream
    that fails never emits \<open>finish\<close>, so the promise stays pending, and
    \<open>processFile\<close> neither returns nor throws. (An external tool that never exits
    leaves \<open>processFile\<close> pending in the same way; and if the runtime stops the
    process on the stream's unhandled \<open>error\<close> event, \<open>processJob\<close> takes no further
    step either.)
\<close>

datatype Conversion = GhostscriptOk nat | FallbackOk nat | FsThrows | NeverSettles

record ProcessResult =
  res_convertedName :: string
  res_convertedSize :: nat
  res_outputPath :: string
  res_isPdfA :: bool
  res_hasOcr :: bool

text \<open>
  The progress reports \<open>processFile\<close> makes before the conversion is decided, in
  order; on success it reports 100 before it returns.
\<close>

definition processFile_progress :: "nat list" where
  "processFile_progress = [10, 20, 40, 70, 90]"

text \<open>
  How the promise returned by \<open>processFile\<close> settles: \<open>Some (Inr result)\<close> when it is
  fulfilled, \<open>Some (Inl e)\<close> when it is rejected, \<open>None\<close> when it never settles.
\<close>

definition processFile_result ::
  "string \<Rightarrow> string \<Rightarrow> ConversionOptions \<Rightarrow> Conversion \<Rightarrow> (error + ProcessResult) option" where
  "processFile_result originalName' outDir opts w =
     (let outputFilename = generatePdfaFilename originalName';
          outputPath = path_join outDir outputFilename
      in case w of
           GhostscriptOk sz \<Rightarrow>
             Some (Inr \<lparr>res_convertedName = outputFilename, res_convertedSize = sz,
                  res_outputPath = outputPath, res_isPdfA = True, res_hasOcr = applyOcr opts\<rparr>)
         | FallbackOk sz \<Rightarrow>
             Some (Inr \<lparr>res_convertedName = outputFilename, res_convertedSize = sz,
                  res_outputPath = outputPath, res_isPdfA = True, res_hasOcr = applyOcr opts\<rparr>)
         | FsThrows \<Rightarrow> Some (Inl (Error msg_process_failed))
         | NeverSettles \<Rightarrow> None)"

section \<open>processJob (server/routes.ts)\<close>

text \<open>
  \<open>processJob\<close> is an async function: between two of its awaits another request
  handler may run. It is modelled by where it stands and a function that runs it from
  there to its next stop.
  \<^item> \<open>ForLoop files\<close>: at the head of the loop over the files still to visit; with no
    file left, before the final check of the job.
  \<^item> \<open>InProcessFile file opts ps rest\<close>: inside \<open>processFile\<close> for \<open>file\<close>, with the
    options read from the job, the progress reports \<open>ps\<close> still to make, and the
    files after this one.
  \<^item> \<open>Finished\<close>: returned (also the state of a job that has no invocation).
  The loop reads \<open>file.id\<close>, \<open>file.storagePath\<close> and \<open>file.originalName\<close> from the
  rows \<open>createPdfFile\<close> returned to the upload handler, not from the store.
\<close>

datatype Pc =
    ForLoop "PdfFile list"
  | InProcessFile PdfFile ConversionOptions "nat list" "PdfFile list"
  | Finished

text \<open>The outer \<open>catch\<close>: the job is marked failed and the function returns.\<close>

definition catch_job :: "nat \<Rightarrow> MemStorage \<Rightarrow> Pc \<times> MemStorage" where
  "catch_job j st = (Finished, snd (updatePdfJob st j [JStatus Failed]))"

text \<open>
  The \<open>catch\<close> inside the loop: the file is marked failed with the error's message
  and the loop goes on; if that update throws, the outer \<open>catch\<close> takes over.
\<close>

definition catch_file ::
  "error \<Rightarrow> nat \<Rightarrow> PdfFile \<Rightarrow> PdfFile list \<Rightarrow> MemStorage \<Rightarrow> Pc \<times> MemStorage" where
  "catch_file e j file rest st =
     (case updatePdfFile st (file_id file) [FStatus Failed, FError (Some (message e))] of
        (Inl e', st') \<Rightarrow> catch_job j st'
      | (Inr updated, st') \<Rightarrow> (ForLoop rest, st'))"

text \<open>The first statement of \<open>processJob\<close>, run inside the call that starts it.\<close>

definition processJob_start :: "nat \<Rightarrow> PdfFile list \<Rightarrow> MemStorage \<Rightarrow> Pc \<times> MemStorage" where
  "processJob_start j fileRows st =
     (case updatePdfJob st j [JStatus Processing] of
        (Inl e, st') \<Rightarrow> catch_job j st'
      | (Inr updated, st') \<Rightarrow> (ForLoop fileRows, st'))"

text \<open>
  One stretch of \<open>processJob\<close> for job \<open>j\<close>; \<open>now\<close> is the clock and \<open>world\<close> tells
  what the conversion of the file with a given id does (read only where that
  conversion is decided). Where \<open>processFile\<close> never settles, \<open>processJob\<close> stays at
  its \<open>await\<close>: the stretch changes nothing, however often it is taken.
\<close>

fun resume :: "nat \<Rightarrow> (nat \<Rightarrow> Conversion) \<Rightarrow> nat \<Rightarrow> Pc \<Rightarrow> MemStorage \<Rightarrow> Pc \<times> MemStorage" where
  "resume now world j Finished st = (Finished, st)"
| "resume now world j (ForLoop []) st =
     (let updatedFiles = getPdfFilesByJobId st j;
          allCompleted =
            list_all (\<lambda>file. file_status file = Completed \<or> file_status file = Failed) updatedFiles
      in if allCompleted
         then (case updatePdfJob st j [JStatus Completed, JCompletedAt (Some now)] of
                 (Inl e, st') \<Rightarrow> catch_job j st'
               | (Inr updated, st') \<Rightarrow> (Finished, st'))
         else (Finished, st))"
| "resume now world j (ForLoop (file # rest)) st =
     (case updatePdfFile st (file_id file) [FStatus Processing] of
        (Inl e, st1) \<Rightarrow> catch_job j st1
      | (Inr updated, st1) \<Rightarrow>
          (case getPdfJob st1 j of
             None \<Rightarrow> catch_file (Error ''Job not found'') j file rest st1
           | Some job \<Rightarrow> (InProcessFile file (options job) processFile_progress rest, st1)))"
| "resume now world j (InProcessFile file opts (p # ps) rest) st =
     (case updatePdfFile st (file_id file) [FProgress (Some p)] of
        (Inl e, st1) \<Rightarrow> catch_file (Error msg_process_failed) j file rest st1
      | (Inr updated, st1) \<Rightarrow> (InProcessFile file opts ps rest, st1))"
| "resume now world j (InProcessFile file opts [] rest) st =
     (case processFile_result (originalName file) outputDir opts (world (file_id file)) of
        None \<Rightarrow> (InProcessFile file opts [] rest, st)
      | Some (Inl e) \<Rightarrow> catch_file e j file rest st
      | Some (Inr result) \<Rightarrow>
          (case updatePdfFile st (file_id file) [FProgress (Some 100)] of
             (Inl e, st1) \<Rightarrow> catch_file (Error msg_process_failed) j file rest st1
           | (Inr updated, st1) \<Rightarrow>
               (case updatePdfFile st1 (file_id file)
                       [FStatus Completed,
                        FConvertedName (Some (res_convertedName result)),
                        FConvertedSize (Some (res_convertedSize result)),
                        FIsPdfA (Some (res_isPdfA result)),
                        FHasOcr (Some (res_hasOcr result)),
                        FProgress (Some 100),
                        FStoragePath (Some (res_outputPath result)),
                        FDownloadUrl (Some (''/files/'' @ path_basename (res_outputPath result)))] of
                  (Inl e, st2) \<Rightarrow> catch_file e j file rest st2
                | (Inr updated2, st2) \<Rightarrow> (ForLoop rest, st2))))"

section \<open>Request handlers (server/routes.ts)\<close>

record FileStatusEntry =
  st_fileId :: nat
  st_name :: string
  st_status :: Status
  st_percentage :: nat
  st_error :: "string option"

record FileResultEntry =
  rs_id :: nat
  rs_name :: string
  rs_size :: nat
  rs_url :: string
  rs_hasPdfA :: "bool option"
  rs_hasOcr :: "bool option"

datatype Body =
    ErrorBody string
  | MessageBody string
  | UploadBody nat string
  | StatusBody nat Status "FileStatusEntry list"
  | ResultsBody nat Status "FileResultEntry list"

record Response =
  code :: nat
  body :: Body

text \<open>JavaScript's \<open>a || b\<close> on a nullable number and on a nullable string.\<close>

definition or_number :: "nat option \<Rightarrow> nat \<Rightarrow> nat" where
  "or_number a b = (case a of None \<Rightarrow> b | Some n \<Rightarrow> if n = 0 then b else n)"

definition or_string :: "string option \<Rightarrow> string \<Rightarrow> string" where
  "or_string a b = (case a of None \<Rightarrow> b | Some s \<Rightarrow> if s = [] then b else s)"

subsection \<open>The upload middleware and POST /api/pdf/upload\<close>

record UploadedFile =
  up_originalname :: string
  up_mimetype :: string
  up_size :: nat
  up_path :: string

definition fileSize_limit :: nat where
  "fileSize_limit = 20 * 1024 * 1024"

text \<open>\<open>fileFilter\<close> rejects a file that has neither the PDF content type nor the extension.\<close>

definition fileFilter_rejects :: "UploadedFile \<Rightarrow> bool" where
  "fileFilter_rejects file \<longleftrightarrow>
     up_mimetype file \<noteq> ''application/pdf'' \<and>
     \<not> endsWith (toLowerCase (up_originalname file)) ''.pdf''"

text \<open>
  \<open>upload.array('files')\<close>: the files pass one by one through the filter and the
  size limit; the first that fails aborts the request with an error, and the route
  handler is not called.
\<close>

fun multer_array :: "UploadedFile list \<Rightarrow> error + UploadedFile list" where
  "multer_array [] = Inr []"
| "multer_array (file # rest) =
     (if fileFilter_rejects file then Inl (Error msg_only_pdf)
      else if up_size file > fileSize_limit then Inl (Error ''File too large'')
      else (case multer_array rest of Inl e \<Rightarrow> Inl e | Inr accepted \<Rightarrow> Inr (file # accepted)))"

text \<open>
  Modelled from the spec: the error handler of the application (server/index.ts is not
  among the sources) answers an error passed on by a middleware. Spec 7: a
  \<open>ValidationError\<close> is bad input at Intake (wrong type, oversized) and is surfaced
  to the caller as 4xx.
\<close>

definition error_handler :: "error \<Rightarrow> Response" where
  "error_handler e = \<lparr>code = 400, body = ErrorBody (message e)\<rparr>"

text \<open>A JSON value, and \<open>conversionOptionsSchema\<close> (three booleans with defaults).\<close>

datatype Json =
    JNull
  | JBool bool
  | JNum int
  | JStr string
  | JArr "Json list"
  | JObj "(string \<times> Json) list"

text \<open>\<open>z.boolean().default(d)\<close> on a property that may be absent.\<close>

fun z_boolean_default :: "bool \<Rightarrow> Json option \<Rightarrow> bool option" where
  "z_boolean_default d None = Some d"
| "z_boolean_default d (Some (JBool b)) = Some b"
| "z_boolean_default d (Some other) = None"

text \<open>In a parsed JSON object the last occurrence of a key counts.\<close>

definition property :: "(string \<times> Json) list \<Rightarrow> string \<Rightarrow> Json option" where
  "property kvs k = map_of (rev kvs) k"

fun conversionOptionsSchema_parse :: "Json \<Rightarrow> ConversionOptions option" where
  "conversionOptionsSchema_parse (JObj kvs) =
     (case (z_boolean_default True (property kvs ''applyOcr''),
            z_boolean_default True (property kvs ''verifyCompliance''),
            z_boolean_default False (property kvs ''optimizeSize'')) of
        (Some a, Some v, Some z) \<Rightarrow>
          Some \<lparr>applyOcr = a, verifyCompliance = v, optimizeSize = z\<rparr>
      | other \<Rightarrow> None)"
| "conversionOptionsSchema_parse other = None"

text \<open>
  The server: the store, and where the \<open>processJob\<close> invocation of each job stands.
  (\<open>activeJobs\<close> is written by the handlers and read by none of them; it is left out.)
\<close>

record Server =
  storage :: MemStorage
  procs :: "nat \<Rightarrow> Pc"

definition initial :: Server where
  "initial = \<lparr>storage = newMemStorage, procs = (\<lambda>j. Finished)\<rparr>"

text \<open>The loop of the upload handler that adds the files to the job.\<close>

fun createFiles :: "MemStorage \<Rightarrow> nat \<Rightarrow> UploadedFile list \<Rightarrow> PdfFile list \<times> MemStorage" where
  "createFiles st j [] = ([], st)"
| "createFiles st j (file # rest) =
     (case createPdfFile st
             \<lparr>ins_jobId = j, ins_originalName = up_originalname file,
              ins_originalSize = up_size file, ins_convertedName = None,
              ins_convertedSize = None, ins_file_status = Pending, ins_error = None,
              ins_isPdfA = None, ins_hasOcr = None, ins_progress = None,
              ins_storagePath = Some (up_path file), ins_downloadUrl = None\<rparr> of
        (pdfFile, st1) \<Rightarrow>
          (case createFiles st1 j rest of
             (jobFiles, st2) \<Rightarrow> (pdfFile # jobFiles, st2)))"

text \<open>
  The handler: \<open>reqFiles\<close> is \<open>req.files\<close>; \<open>optionsRaw\<close> is the value handed to the
  schema, \<open>None\<close> when \<open>req.body.options\<close> is absent or \<open>JSON.parse\<close> throws on it.
\<close>

definition post_upload ::
  "Server \<Rightarrow> UploadedFile list \<Rightarrow> Json option \<Rightarrow> nat \<Rightarrow> Response \<times> Server" where
  "post_upload s reqFiles optionsRaw now =
     (if reqFiles = [] then (\<lparr>code = 400, body = ErrorBody msg_no_files\<rparr>, s)
      else
        (case Option.bind optionsRaw conversionOptionsSchema_parse of
           None \<Rightarrow> (\<lparr>code = 400, body = ErrorBody msg_bad_options\<rparr>, s)
         | Some opts \<Rightarrow>
             (case createPdfJob (storage s) \<lparr>ins_job_status = Pending, ins_options = opts\<rparr> now of
                (job, st1) \<Rightarrow>
                  (case createFiles st1 (job_id job) reqFiles of
                     (jobFiles, st2) \<Rightarrow>
                       (case processJob_start (job_id job) jobFiles st2 of
                          (pc, st3) \<Rightarrow>
                            (\<lparr>code = 200, body = UploadBody (job_id job) msg_upload_ok\<rparr>,
                             s\<lparr>storage := st3, procs := (procs s)(job_id job := pc)\<rparr>))))))"

text \<open>The route: middleware, then handler.\<close>

definition upload_route ::
  "Server \<Rightarrow> UploadedFile list \<Rightarrow> Json option \<Rightarrow> nat \<Rightarrow> Response \<times> Server" where
  "upload_route s incoming optionsRaw now =
     (case multer_array incoming of
        Inl e \<Rightarrow> (error_handler e, s)
      | Inr reqFiles \<Rightarrow> post_upload s reqFiles optionsRaw now)"

subsection \<open>GET /api/pdf/status/:jobId and GET /api/pdf/results/:jobId\<close>

text \<open>The id parameter is what \<open>parseInt\<close> made of it, \<open>None\<close> for \<open>NaN\<close>.\<close>

definition status_entry :: "PdfFile \<Rightarrow> FileStatusEntry" where
  "status_entry file =
     \<lparr>st_fileId = file_id file, st_name = originalName file, st_status = file_status file,
      st_percentage = or_number (progress file) 0, st_error = error file\<rparr>"

definition get_status :: "MemStorage \<Rightarrow> nat option \<Rightarrow> Response" where
  "get_status st param =
     (case param of
        None \<Rightarrow> \<lparr>code = 400, body = ErrorBody msg_bad_job_id\<rparr>
      | Some j \<Rightarrow>
          (case getPdfJob st j of
             None \<Rightarrow> \<lparr>code = 404, body = ErrorBody msg_job_not_found\<rparr>
           | Some job \<Rightarrow>
               \<lparr>code = 200,
                body = StatusBody (job_id job) (job_status job)
                         (map status_entry (getPdfFilesByJobId st j))\<rparr>))"

definition result_entry :: "PdfFile \<Rightarrow> FileResultEntry" where
  "result_entry file =
     \<lparr>rs_id = file_id file,
      rs_name = or_string (convertedName file) (originalName file),
      rs_size = or_number (convertedSize file) (originalSize file),
      rs_url = or_string (downloadUrl file) [],
      rs_hasPdfA = isPdfA file, rs_hasOcr = hasOcr file\<rparr>"

definition get_results :: "MemStorage \<Rightarrow> nat option \<Rightarrow> Response" where
  "get_results st param =
     (case param of
        None \<Rightarrow> \<lparr>code = 400, body = ErrorBody msg_bad_job_id\<rparr>
      | Some j \<Rightarrow>
          (case getPdfJob st j of
             None \<Rightarrow> \<lparr>code = 404, body = ErrorBody msg_job_not_found\<rparr>
           | Some job \<Rightarrow>
               if job_status job \<noteq> Completed
               then \<lparr>code = 400, body = ErrorBody msg_not_ready\<rparr>
               else \<lparr>code = 200,
                     body = ResultsBody (job_id job) (job_status job)
                              (map result_entry (getPdfFilesByJobId st j))\<rparr>))"

subsection \<open>POST /api/pdf/cancel\<close>

text \<open>
  The loop over the files of the job. It reads the status from the rows it fetched
  before the loop; an update that throws ends the handler in its \<open>catch\<close>.
\<close>

fun cancel_files :: "MemStorage \<Rightarrow> PdfFile list \<Rightarrow> error option \<times> MemStorage" where
  "cancel_files st [] = (None, st)"
| "cancel_files st (file # rest) =
     (if file_status file = Pending \<or> file_status file = Processing
      then (case updatePdfFile st (file_id file)
                   [FStatus Failed, FError (Some msg_cancelled_by_user)] of
              (Inl e, st') \<Rightarrow> (Some e, st')
            | (Inr updated, st') \<Rightarrow> cancel_files st' rest)
      else cancel_files st rest)"

text \<open>\<open>bodyJobId\<close> is \<open>req.body.jobId\<close>, \<open>None\<close> when absent; 0 is falsy as well.\<close>

definition post_cancel :: "MemStorage \<Rightarrow> nat option \<Rightarrow> Response \<times> MemStorage" where
  "post_cancel st bodyJobId =
     (case bodyJobId of
        None \<Rightarrow> (\<lparr>code = 400, body = ErrorBody msg_no_job_id\<rparr>, st)
      | Some j \<Rightarrow>
          if j = 0 then (\<lparr>code = 400, body = ErrorBody msg_no_job_id\<rparr>, st)
          else
            (case getPdfJob st j of
               None \<Rightarrow> (\<lparr>code = 404, body = ErrorBody msg_job_not_found\<rparr>, st)
             | Some job \<Rightarrow>
                 if job_status job = Completed \<or> job_status job = Failed
                 then (\<lparr>code = 400, body = ErrorBody msg_already_done\<rparr>, st)
                 else
                   (case updatePdfJob st j [JStatus Failed] of
                      (Inl e, st1) \<Rightarrow> (\<lparr>code = 500, body = ErrorBody msg_cancel_error\<rparr>, st1)
                    | (Inr updated, st1) \<Rightarrow>
                        (case cancel_files st1 (getPdfFilesByJobId st1 j) of
                           (Some e, st2) \<Rightarrow> (\<lparr>code = 500, body = ErrorBody msg_cancel_error\<rparr>, st2)
                         | (None, st2) \<Rightarrow> (\<lparr>code = 200, body = MessageBody msg_cancel_ok\<rparr>, st2)))))"

section \<open>The server as a transition system\<close>

text \<open>
  What can happen to the server: an upload request (files as received, options
  payload, clock), a cancel request, and a \<open>processJob\<close> invocation running on to
  its next stop (job id, clock, outcomes of the conversions). The two GET handlers
  read the store and change nothing.
\<close>

datatype Event =
    Upload "UploadedFile list" "Json option" nat
  | Cancel "nat option"
  | Resume nat nat "nat \<Rightarrow> Conversion"

fun step :: "Event \<Rightarrow> Server \<Rightarrow> Server" where
  "step (Upload incoming optionsRaw now) s = snd (upload_route s incoming optionsRaw now)"
| "step (Cancel bodyJobId) s = s\<lparr>storage := snd (post_cancel (storage s) bodyJobId)\<rparr>"
| "step (Resume j now world) s =
     (case resume now world j (procs s j) (storage s) of
        (pc, st) \<Rightarrow> s\<lparr>storage := st, procs := (procs s)(j := pc)\<rparr>)"

definition run :: "Event list \<Rightarrow> Server \<Rightarrow> Server" where
  "run events s = fold step events s"

text \<open>
  \<open>processJob\<close> left alone, with no other handler in between: it runs from stop to
  stop. \<open>pc_size\<close> counts the stops still ahead of an invocation whose conversions
  all settle; a returned invocation stays returned, and one that waits for a
  conversion that never settles stays where it is. So that many stretches run the
  invocation as far as it ever gets: to its end, if the conversions of the files
  still ahead settle.
\<close>

fun pc_size :: "Pc \<Rightarrow> nat" where
  "pc_size Finished = 0"
| "pc_size (ForLoop rest) = 1 + 8 * length rest"
| "pc_size (InProcessFile file opts ps rest) = 2 + length ps + 8 * length rest"

definition processJob_alone :: "nat \<Rightarrow> (nat \<Rightarrow> Conversion) \<Rightarrow> nat \<Rightarrow> Server \<Rightarrow> Server" where
  "processJob_alone now world j s = (step (Resume j now world) ^^ pc_size (procs s j)) s"

section \<open>The legacy job API (second server/routes.ts)\<close>

text \<open>
  The older API keeps one row per job (a job is one document) and answers
  GET /api/pdf/jobs/:id/progress from the job's status alone. \<open>random\<close> is what
  \<open>Math.random()\<close> returns for the request, a number in [0, 1).
\<close>

record LegacyJob =
  lj_id :: nat
  lj_originalName :: string
  lj_status :: Status
  lj_inputUrl :: string
  lj_outputUrl :: "string option"
  lj_errorMessage :: "string option"
  lj_createdAt :: string

record ProgressBody =
  pb_jobId :: nat
  pb_status :: Status
  pb_progress :: nat
  pb_stage :: string
  pb_outputUrl :: "string option"
  pb_errorMessage :: "string option"

definition progress_of_status :: "Status \<Rightarrow> real \<Rightarrow> nat \<times> string" where
  "progress_of_status status random =
     (case status of
        Pending \<Rightarrow> (0, ''Aguardando processamento'')
      | Processing \<Rightarrow>
          (let progress' = min (nat \<lfloor>random * 90\<rfloor> + 10) 95
           in if progress' < 30 then (progress', ''Analisando documento...'')
              else if progress' < 60 then (progress', ''Aplicando OCR...'')
              else (progress', ''Convertendo para PDF/A-2U...''))
      | Completed \<Rightarrow> (100, ''Convers'' @ [CHR 0xE3] @ ''o conclu'' @ [CHR 0xED] @ ''da!'')
      | Failed \<Rightarrow> (0, ''Falha na convers'' @ [CHR 0xE3] @ ''o''))"

definition get_job_progress ::
  "(nat \<times> LegacyJob) list \<Rightarrow> nat option \<Rightarrow> real \<Rightarrow> (nat \<times> string) + ProgressBody" where
  "get_job_progress pdfJobs param random =
     (case param of
        None \<Rightarrow> Inl (400, ''Invalid job ID'')
      | Some i \<Rightarrow>
          (case map_of pdfJobs i of
             None \<Rightarrow> Inl (404, ''PDF job not found'')
           | Some job \<Rightarrow>
               (case progress_of_status (lj_status job) random of
                  (progress', stage) \<Rightarrow>
                    Inr \<lparr>pb_jobId = lj_id job, pb_status = lj_status job,
                         pb_progress = progress', pb_stage = stage,
                         pb_outputUrl = lj_outputUrl job,
                         pb_errorMessage = lj_errorMessage job\<rparr>)))"

section \<open>Invariants of the server\<close>

definition terminal :: "Status \<Rightarrow> bool" where
  "terminal status \<longleftrightarrow> status = Completed \<or> status = Failed"

text \<open>The percentage the status handler reports for a file row, and for a stored id.\<close>

definition percentage :: "PdfFile \<Rightarrow> nat" where
  "percentage file = or_number (progress file) 0"

definition stored_percentage :: "MemStorage \<Rightarrow> nat \<Rightarrow> nat" where
  "stored_percentage st k = (case map_of (files st) k of None \<Rightarrow> 0 | Some file \<Rightarrow> percentage file)"

text \<open>
  The store as the handlers keep it: the job counter is positive, keys are distinct,
  a row is stored under its own id, ids are below the counters (job ids positive),
  and a file's job id is below the job counter.
\<close>

definition store_inv :: "MemStorage \<Rightarrow> bool" where
  "store_inv st \<longleftrightarrow>
     0 < jobCurrentId st \<and>
     distinct (map fst (jobs st)) \<and> distinct (map fst (files st)) \<and>
     (\<forall>k job. map_of (jobs st) k = Some job \<longrightarrow>
        job_id job = k \<and> 0 < k \<and> k < jobCurrentId st) \<and>
     (\<forall>k file. map_of (files st) k = Some file \<longrightarrow>
        file_id file = k \<and> k < fileCurrentId st \<and> jobId file < jobCurrentId st)"

text \<open>The file rows an invocation still has to deal with.\<close>

fun pc_files :: "Pc \<Rightarrow> PdfFile list" where
  "pc_files Finished = []"
| "pc_files (ForLoop rest) = rest"
| "pc_files (InProcessFile file opts ps rest) = file # rest"

text \<open>
  Progress and an invocation: files not yet visited stand at 0; the file being
  converted stands at most at each report still to come, and those come in
  increasing order up to 100.
\<close>

fun progress_inv :: "Pc \<Rightarrow> MemStorage \<Rightarrow> bool" where
  "progress_inv Finished st = True"
| "progress_inv (ForLoop rest) st = (\<forall>g \<in> set rest. stored_percentage st (file_id g) = 0)"
| "progress_inv (InProcessFile file opts ps rest) st =
     (sorted ps \<and>
      (\<forall>p \<in> set ps. stored_percentage st (file_id file) \<le> p \<and> p \<le> 100) \<and>
      stored_percentage st (file_id file) \<le> 100 \<and>
      (\<forall>g \<in> set rest. stored_percentage st (file_id g) = 0))"

text \<open>
  An invocation that has not returned belongs to a stored job that is not completed,
  and the job of one that has returned is completed; its file rows have distinct ids
  and are stored under them as files of that job.
\<close>

definition proc_inv :: "Server \<Rightarrow> nat \<Rightarrow> bool" where
  "proc_inv s j \<longleftrightarrow>
     (procs s j \<noteq> Finished \<longrightarrow>
        (\<exists>job. map_of (jobs (storage s)) j = Some job \<and> job_status job \<noteq> Completed)) \<and>
     (procs s j = Finished \<longrightarrow>
        (\<forall>job. map_of (jobs (storage s)) j = Some job \<longrightarrow> job_status job = Completed)) \<and>
     distinct (map file_id (pc_files (procs s j))) \<and>
     (\<forall>g \<in> set (pc_files (procs s j)).
        \<exists>file. map_of (files (storage s)) (file_id g) = Some file \<and> jobId file = j) \<and>
     progress_inv (procs s j) (storage s)"

text \<open>A file that is not in a terminal state is still ahead of its job's invocation.\<close>

definition owned_inv :: "Server \<Rightarrow> bool" where
  "owned_inv s \<longleftrightarrow>
     (\<forall>k file. map_of (files (storage s)) k = Some file \<longrightarrow>
        terminal (file_status file) \<or> k \<in> file_id ` set (pc_files (procs s (jobId file))))"

definition completedAt_inv :: "MemStorage \<Rightarrow> bool" where
  "completedAt_inv st \<longleftrightarrow>
     (\<forall>k job. map_of (jobs st) k = Some job \<longrightarrow>
        (completedAt job \<noteq> None) = (job_status job = Completed))"

definition sys_inv :: "Server \<Rightarrow> bool" where
  "sys_inv s \<longleftrightarrow>
     store_inv (storage s) \<and> (\<forall>j. proc_inv s j) \<and> owned_inv s \<and> completedAt_inv (storage s)"

section \<open>A small run, used to exercise the theorems\<close>

definition ex_file :: UploadedFile where
  "ex_file = \<lparr>up_originalname = ''a.pdf'', up_mimetype = ''application/pdf'',
              up_size = 1000, up_path = ''tmp/uploads/u1-a.pdf''\<rparr>"

definition ex_big_file :: UploadedFile where
  "ex_big_file = \<lparr>up_originalname = ''big.pdf'', up_mimetype = ''application/pdf'',
                  up_size = 25 * 1024 * 1024, up_path = ''tmp/uploads/u2-big.pdf''\<rparr>"

definition ex_options :: ConversionOptions where
  "ex_options = \<lparr>applyOcr = True, verifyCompliance = True, optimizeSize = False\<rparr>"

definition ex_row :: PdfFile where
  "ex_row = \<lparr>file_id = 1, jobId = 1, originalName = ''a.pdf'', originalSize = 1000,
             convertedName = None, convertedSize = None, file_status = Pending, error = None,
             isPdfA = Some False, hasOcr = Some False, progress = Some 0,
             storagePath = Some ''tmp/uploads/u1-a.pdf'', downloadUrl = None\<rparr>"

definition ex_job :: PdfJob where
  "ex_job = \<lparr>job_id = 1, job_status = Processing, createdAt = 5, completedAt = None,
             options = ex_options\<rparr>"

text \<open>One upload of one file with default options, at time 5.\<close>

definition ex_upload :: Event where
  "ex_upload = Upload [ex_file] (Some (JObj [])) 5"

text \<open>The server after that upload: job 1 is processing, file 1 is pending.\<close>

definition ex_uploaded :: Server where
  "ex_uploaded =
     \<lparr>storage = \<lparr>jobs = [(1, ex_job)], files = [(1, ex_row)], jobCurrentId = 2, fileCurrentId = 2\<rparr>,
      procs = (\<lambda>j. Finished)(1 := ForLoop [ex_row])\<rparr>"

text \<open>Three outside worlds: every conversion yields an empty output, fails, or succeeds.\<close>

definition ex_world_empty :: "nat \<Rightarrow> Conversion" where
  "ex_world_empty k = GhostscriptOk 0"

definition ex_world_fails :: "nat \<Rightarrow> Conversion" where
  "ex_world_fails k = FsThrows"

definition ex_world_ok :: "nat \<Rightarrow> Conversion" where
  "ex_world_ok k = GhostscriptOk 2048"

text \<open>A row for \<open>createPdfFile\<close> in which the caller supplies every column.\<close>

definition ex_insert :: InsertPdfFile where
  "ex_insert =
     \<lparr>ins_jobId = 1, ins_originalName = ''a.pdf'', ins_originalSize = 1000,
      ins_convertedName = Some ''x.pdf'', ins_convertedSize = Some 7,
      ins_file_status = Pending, ins_error = Some ''boom'', ins_isPdfA = Some True,
      ins_hasOcr = Some True, ins_progress = Some 55, ins_storagePath = Some ''p'',
      ins_downloadUrl = Some ''/files/x.pdf''\<rparr>"

text \<open>
  The upload followed by the eight stretches of its \<open>processJob\<close> (loop head, five
  progress reports, the conversion, the final check), every conversion succeeding; and
  job 1 as that run leaves it.
\<close>

definition ex_full_run :: "Event list" where
  "ex_full_run = ex_upload # replicate 8 (Resume 1 9 ex_world_ok)"

definition ex_job_done :: PdfJob where
  "ex_job_done = ex_job\<lparr>job_status := Completed, completedAt := Some 9\<rparr>"

text \<open>A job of the legacy API that is being processed.\<close>

definition ex_legacy_jobs :: "(nat \<times> LegacyJob) list" where
  "ex_legacy_jobs =
     [(1, \<lparr>lj_id = 1, lj_originalName = ''a.pdf'', lj_status = Processing,
           lj_inputUrl = ''local'', lj_outputUrl = None, lj_errorMessage = None,
           lj_createdAt = ''2025-04-16T12:00:00.000Z''\<rparr>)]"

text \<open>
  An upload of two files; an outside world in which the conversion of file 1 fails and
  every other conversion succeeds.
\<close>

definition ex_upload_two :: Event where
  "ex_upload_two = Upload [ex_file, ex_file] (Some (JObj [])) 5"

definition ex_row2 :: PdfFile where
  "ex_row2 = ex_row\<lparr>file_id := 2\<rparr>"

definition ex_world_first_fails :: "nat \<Rightarrow> Conversion" where
  "ex_world_first_fails k = (if k = 1 then FsThrows else GhostscriptOk 2048)"

text \<open>
  An outside world in which, for file 1, Ghostscript fails and the write stream of the
  fallback fails, and every other conversion succeeds.
\<close>

definition ex_world_first_unsettled :: "nat \<Rightarrow> Conversion" where
  "ex_world_first_unsettled k = (if k = 1 then NeverSettles else GhostscriptOk 2048)"

text \<open>
  The upload, the first two stretches of its \<open>processJob\<close> (file 1 is set to
  processing and reports 10 percent), then a cancel request for job 1.
\<close>

definition ex_cancel_run :: "Event list" where
  "ex_cancel_run = [ex_upload, Resume 1 6 ex_world_ok, Resume 1 6 ex_world_ok, Cancel (Some 1)]"

section \<open>Storage: keys stay below the id counters\<close>

lemma keys_below_new: "keys_below newMemStorage"
  by (simp add: keys_below_def newMemStorage_def)

lemma keys_below_createPdfJob: "keys_below st \<Longrightarrow> keys_below (snd (createPdfJob st job now))"
  by (auto simp: keys_below_def createPdfJob_def Let_def update_conv' less_Suc_eq
           split: if_splits)

lemma keys_below_createPdfFile: "keys_below st \<Longrightarrow> keys_below (snd (createPdfFile st file))"
  by (auto simp: keys_below_def createPdfFile_def Let_def update_conv' less_Suc_eq
           split: if_splits)

lemma keys_below_updatePdfJob: "keys_below st \<Longrightarrow> keys_below (snd (updatePdfJob st i ups))"
  by (auto simp: keys_below_def updatePdfJob_def Let_def update_conv'
           split: option.splits if_splits)

lemma keys_below_updatePdfFile: "keys_below st \<Longrightarrow> keys_below (snd (updatePdfFile st i ups))"
  by (auto simp: keys_below_def updatePdfFile_def Let_def update_conv'
           split: option.splits if_splits)

lemma reachable_keys_below: "reachable_store st \<Longrightarrow> keys_below st"
  by (induction rule: reachable_store.induct)
     (simp_all add: keys_below_new keys_below_createPdfJob keys_below_updatePdfJob
        keys_below_createPdfFile keys_below_updatePdfFile)

section \<open>Storage: the update methods on an unknown id\<close>

text \<open>
  C9. For a job id (file id) that is not a key of the store, \<open>updatePdfJob\<close>
  (\<open>updatePdfFile\<close>) throws the not-found error and leaves the store as it was: the
  jobs, the files and both id counters are unchanged, so no record is created or
  modified.
\<close>

theorem update_unknown_id_throws_and_keeps_store:
  "(map_of (jobs st) i = None \<longrightarrow>
      updatePdfJob st i jups = (Inl (Error (''Job with id '' @ showNat i @ '' not found'')), st)) \<and>
   (map_of (files st) i = None \<longrightarrow>
      updatePdfFile st i fups = (Inl (Error (''File with id '' @ showNat i @ '' not found'')), st))"
  by (simp add: updatePdfJob_def updatePdfFile_def)

theorem update_unknown_id_witness:
  "map_of (jobs (snd (createPdfJob newMemStorage
        \<lparr>ins_job_status = Pending,
         ins_options = \<lparr>applyOcr = True, verifyCompliance = True, optimizeSize = False\<rparr>\<rparr> 0))) 7 = None \<and>
   updatePdfJob (snd (createPdfJob newMemStorage
        \<lparr>ins_job_status = Pending,
         ins_options = \<lparr>applyOcr = True, verifyCompliance = True, optimizeSize = False\<rparr>\<rparr> 0))
      7 [JStatus Failed] =
     (Inl (Error (''Job with id '' @ showNat 7 @ '' not found'')),
      snd (createPdfJob newMemStorage
        \<lparr>ins_job_status = Pending,
         ins_options = \<lparr>applyOcr = True, verifyCompliance = True, optimizeSize = False\<rparr>\<rparr> 0)) \<and>
   map_of (files newMemStorage) 3 = None \<and>
   updatePdfFile newMemStorage 3 [FStatus Failed] =
     (Inl (Error (''File with id '' @ showNat 3 @ '' not found'')), newMemStorage)"
  using update_unknown_id_throws_and_keeps_store
          [of "snd (createPdfJob newMemStorage
                 \<lparr>ins_job_status = Pending,
                  ins_options = \<lparr>applyOcr = True, verifyCompliance = True, optimizeSize = False\<rparr>\<rparr> 0)"
              7 "[JStatus Failed]"]
        update_unknown_id_throws_and_keeps_store [of newMemStorage 3 _ "[FStatus Failed]"]
  by (simp add: createPdfJob_def newMemStorage_def Let_def)

section \<open>Storage: what createPdfFile stores\<close>

text \<open>
  C10. In every store a \<open>MemStorage\<close> object can be in, \<open>createPdfFile\<close> returns
  and stores a File with progress 0, error null, isPdfA false, hasOcr false and null
  convertedName, convertedSize and downloadUrl, whatever the caller supplied for those
  columns, and the id it assigns is not the id any File is stored under; where the
  stored rows carry the id they are stored under, no stored row has that id.
\<close>

theorem createPdfFile_defaults_and_fresh_id:
  assumes "reachable_store st" and "createPdfFile st file = (newFile, st')"
  shows "progress newFile = Some 0 \<and> error newFile = None \<and>
         isPdfA newFile = Some False \<and> hasOcr newFile = Some False \<and>
         convertedName newFile = None \<and> convertedSize newFile = None \<and>
         downloadUrl newFile = None \<and>
         map_of (files st') (file_id newFile) = Some newFile \<and>
         file_id newFile \<notin> fst ` set (files st) \<and>
         ((\<forall>p \<in> set (files st). file_id (snd p) = fst p) \<longrightarrow>
          (\<forall>p \<in> set (files st). file_id (snd p) \<noteq> file_id newFile))"
proof -
  have kb: "keys_below st"
    using assms(1) by (rule reachable_keys_below)
  have fresh: "map_of (files st) (fileCurrentId st) = None"
  proof (cases "map_of (files st) (fileCurrentId st)")
    case None
    then show ?thesis .
  next
    case (Some f)
    with kb have "fileCurrentId st < fileCurrentId st"
      unfolding keys_below_def by blast
    then show ?thesis by simp
  qed
  have i: "file_id newFile = fileCurrentId st"
    using assms(2) by (auto simp: createPdfFile_def Let_def)
  have notin: "file_id newFile \<notin> fst ` set (files st)"
    using fresh i by (simp add: map_of_eq_None_iff)
  have rows: "\<forall>p \<in> set (files st). file_id (snd p) \<noteq> file_id newFile"
    if own: "\<forall>p \<in> set (files st). file_id (snd p) = fst p"
  proof
    fix p assume p: "p \<in> set (files st)"
    then have "fst p \<in> fst ` set (files st)" by (rule imageI)
    with notin have "fst p \<noteq> file_id newFile" by metis
    with own p show "file_id (snd p) \<noteq> file_id newFile" by simp
  qed
  have stored: "map_of (files st') (file_id newFile) = Some newFile"
    using assms(2) by (auto simp: createPdfFile_def Let_def update_conv')
  have cols: "progress newFile = Some 0 \<and> error newFile = None \<and>
         isPdfA newFile = Some False \<and> hasOcr newFile = Some False \<and>
         convertedName newFile = None \<and> convertedSize newFile = None \<and>
         downloadUrl newFile = None"
    using assms(2) by (auto simp: createPdfFile_def Let_def)
  from cols stored notin rows show ?thesis by blast
qed

theorem createPdfFile_defaults_and_fresh_id_witness:
  "reachable_store (snd (createPdfFile newMemStorage ex_insert)) \<and>
   ins_progress ex_insert = Some 55 \<and> ins_error ex_insert = Some ''boom'' \<and>
   progress (fst (createPdfFile (snd (createPdfFile newMemStorage ex_insert)) ex_insert)) = Some 0 \<and>
   error (fst (createPdfFile (snd (createPdfFile newMemStorage ex_insert)) ex_insert)) = None \<and>
   file_id (fst (createPdfFile (snd (createPdfFile newMemStorage ex_insert)) ex_insert)) = 2 \<and>
   map (\<lambda>p. (fst p, file_id (snd p))) (files (snd (createPdfFile newMemStorage ex_insert)))
     = [(1, 1)] \<and>
   file_id (fst (createPdfFile (snd (createPdfFile newMemStorage ex_insert)) ex_insert))
     \<notin> fst ` set (files (snd (createPdfFile newMemStorage ex_insert))) \<and>
   list_all (\<lambda>p. file_id (snd p) \<noteq>
                file_id (fst (createPdfFile (snd (createPdfFile newMemStorage ex_insert)) ex_insert)))
     (files (snd (createPdfFile newMemStorage ex_insert)))"
proof -
  have r: "reachable_store (snd (createPdfFile newMemStorage ex_insert))"
    by (rule rs_createPdfFile[OF rs_new])
  have c: "createPdfFile (snd (createPdfFile newMemStorage ex_insert)) ex_insert =
      (fst (createPdfFile (snd (createPdfFile newMemStorage ex_insert)) ex_insert),
       snd (createPdfFile (snd (createPdfFile newMemStorage ex_insert)) ex_insert))"
    by simp
  have e: "ins_progress ex_insert = Some 55 \<and> ins_error ex_insert = Some ''boom'' \<and>
     file_id (fst (createPdfFile (snd (createPdfFile newMemStorage ex_insert)) ex_insert)) = 2 \<and>
     map (\<lambda>p. (fst p, file_id (snd p))) (files (snd (createPdfFile newMemStorage ex_insert)))
       = [(1, 1)]"
    by (simp add: ex_insert_def createPdfFile_def newMemStorage_def Let_def)
  have own: "\<forall>p \<in> set (files (snd (createPdfFile newMemStorage ex_insert))).
               file_id (snd p) = fst p"
    by (simp add: ex_insert_def createPdfFile_def newMemStorage_def Let_def)
  from createPdfFile_defaults_and_fresh_id[OF r c] r e own show ?thesis
    unfolding list_all_iff by blast
qed

section \<open>Storage: what an update does\<close>

lemma updatePdfFile_found:
  "map_of (files st) i = Some f \<Longrightarrow>
   updatePdfFile st i ups =
     (Inr (spreadFile f ups), st\<lparr>files := AList.update i (spreadFile f ups) (files st)\<rparr>)"
  by (simp add: updatePdfFile_def Let_def)

lemma updatePdfJob_found:
  "map_of (jobs st) i = Some job \<Longrightarrow>
   updatePdfJob st i ups =
     (Inr (spreadJob job ups), st\<lparr>jobs := AList.update i (spreadJob job ups) (jobs st)\<rparr>)"
  by (simp add: updatePdfJob_def Let_def)

lemma update_keys_found:
  "map_of al k = Some v \<Longrightarrow> map fst (AList.update k v' al) = map fst al"
  by (auto simp: update_keys dest: map_of_SomeD intro: rev_image_eqI)

lemma spread_cancel:
  "spreadFile f [FStatus Failed, FError (Some m)] = f\<lparr>file_status := Failed, error := Some m\<rparr>"
  by (simp add: spreadFile_def)

lemma spread_processing: "spreadFile f [FStatus Processing] = f\<lparr>file_status := Processing\<rparr>"
  by (simp add: spreadFile_def)

lemma spread_progress: "spreadFile f [FProgress p] = f\<lparr>progress := p\<rparr>"
  by (simp add: spreadFile_def)

lemma spread_failed:
  "spreadFile f [FStatus Failed, FError e] = f\<lparr>file_status := Failed, error := e\<rparr>"
  by (simp add: spreadFile_def)

lemma spread_completed:
  "spreadFile f [FStatus Completed, FConvertedName a, FConvertedSize b, FIsPdfA c, FHasOcr d,
                 FProgress e, FStoragePath g, FDownloadUrl h] =
   f\<lparr>file_status := Completed, convertedName := a, convertedSize := b, isPdfA := c,
     hasOcr := d, progress := e, storagePath := g, downloadUrl := h\<rparr>"
  by (simp add: spreadFile_def)

lemma spread_rollup:
  "spreadJob job [JStatus Completed, JCompletedAt t] = job\<lparr>job_status := Completed, completedAt := t\<rparr>"
  by (simp add: spreadJob_def)

lemma store_rows:
  assumes "distinct (map fst al)" and "\<forall>k f. map_of al k = Some f \<longrightarrow> file_id f = k"
  shows "map file_id (map snd al) = map fst al"
proof -
  have "\<forall>p \<in> set al. file_id (snd p) = fst p"
  proof
    fix p assume "p \<in> set al"
    then have "map_of al (fst p) = Some (snd p)"
      by (simp add: map_of_eq_Some_iff[OF assms(1)])
    then show "file_id (snd p) = fst p" using assms(2) by blast
  qed
  then show ?thesis by (induction al) auto
qed

lemma snapshot_facts:
  assumes "store_inv st"
  shows "distinct (map file_id (getPdfFilesByJobId st j))"
    and "\<forall>g \<in> set (getPdfFilesByJobId st j). map_of (files st) (file_id g) = Some g"
    and "\<And>k. k \<in> file_id ` set (getPdfFilesByJobId st j) \<longleftrightarrow>
           (\<exists>f. map_of (files st) k = Some f \<and> jobId f = j)"
proof -
  have d: "distinct (map fst (files st))"
    and ik: "\<forall>k f. map_of (files st) k = Some f \<longrightarrow> file_id f = k"
    using assms by (auto simp: store_inv_def)
  have rows: "map file_id (map snd (files st)) = map fst (files st)"
    using d ik by (rule store_rows)
  have "distinct (map file_id (map snd (files st)))" by (subst rows) (rule d)
  then show "distinct (map file_id (getPdfFilesByJobId st j))"
    unfolding getPdfFilesByJobId_def by (rule distinct_map_filter)
  have mem: "\<And>g. g \<in> set (map snd (files st)) \<Longrightarrow> map_of (files st) (file_id g) = Some g"
  proof -
    fix g assume "g \<in> set (map snd (files st))"
    then obtain k where kg: "(k, g) \<in> set (files st)" by auto
    then have m: "map_of (files st) k = Some g" using d by simp
    then have "file_id g = k" using ik by blast
    with m show "map_of (files st) (file_id g) = Some g" by simp
  qed
  then show "\<forall>g \<in> set (getPdfFilesByJobId st j). map_of (files st) (file_id g) = Some g"
    by (simp add: getPdfFilesByJobId_def)
  fix k
  show "k \<in> file_id ` set (getPdfFilesByJobId st j) \<longleftrightarrow>
           (\<exists>f. map_of (files st) k = Some f \<and> jobId f = j)"
  proof
    assume "k \<in> file_id ` set (getPdfFilesByJobId st j)"
    then obtain g where g: "g \<in> set (map snd (files st))" "jobId g = j" "k = file_id g"
      by (auto simp: getPdfFilesByJobId_def)
    with mem[OF g(1)] show "\<exists>f. map_of (files st) k = Some f \<and> jobId f = j" by auto
  next
    assume "\<exists>f. map_of (files st) k = Some f \<and> jobId f = j"
    then obtain f where f: "map_of (files st) k = Some f" "jobId f = j" by blast
    then have "(k, f) \<in> set (files st)" by (auto dest: map_of_SomeD)
    then have "f \<in> set (map snd (files st))" by force
    moreover have "file_id f = k" using ik f(1) by blast
    ultimately show "k \<in> file_id ` set (getPdfFilesByJobId st j)"
      using f(2) by (force simp: getPdfFilesByJobId_def)
  qed
qed

lemma store_inv_job_update:
  assumes "store_inv st" and "map_of (jobs st) j = Some job" and "job_id job' = j"
  shows "store_inv (st\<lparr>jobs := AList.update j job' (jobs st)\<rparr>)"
  using assms
  by (auto simp: store_inv_def update_conv' update_keys_found distinct_update split: if_splits)

section \<open>The cancel handler on a well-formed store\<close>

lemma cancel_files_effect:
  assumes "distinct (map file_id fs)"
    and "\<forall>g \<in> set fs. map_of (files st) (file_id g) = Some g"
  shows "\<exists>st'. cancel_files st fs = (None, st') \<and> jobs st' = jobs st \<and>
           jobCurrentId st' = jobCurrentId st \<and> fileCurrentId st' = fileCurrentId st \<and>
           map fst (files st') = map fst (files st) \<and>
           (\<forall>k. map_of (files st') k =
              (case map_of (files st) k of
                 None \<Rightarrow> None
               | Some f \<Rightarrow>
                   Some (if k \<in> file_id ` set fs \<and> \<not> terminal (file_status f)
                         then f\<lparr>file_status := Failed, error := Some msg_cancelled_by_user\<rparr>
                         else f)))"
  using assms
proof (induction fs arbitrary: st)
  case Nil
  then show ?case by (auto split: option.splits)
next
  case (Cons g fs)
  have g: "map_of (files st) (file_id g) = Some g"
    using Cons.prems(2) by simp
  have dist: "distinct (map file_id fs)" and notin: "file_id g \<notin> file_id ` set fs"
    using Cons.prems(1) by auto
  show ?case
  proof (cases "file_status g = Pending \<or> file_status g = Processing")
    case False
    have rest: "\<forall>h \<in> set fs. map_of (files st) (file_id h) = Some h"
      using Cons.prems(2) by simp
    from Cons.IH[OF dist rest] obtain st' where
      st': "cancel_files st fs = (None, st')" "jobs st' = jobs st"
        "jobCurrentId st' = jobCurrentId st" "fileCurrentId st' = fileCurrentId st"
        "map fst (files st') = map fst (files st)"
        "\<forall>k. map_of (files st') k =
              (case map_of (files st) k of
                 None \<Rightarrow> None
               | Some f \<Rightarrow>
                   Some (if k \<in> file_id ` set fs \<and> \<not> terminal (file_status f)
                         then f\<lparr>file_status := Failed, error := Some msg_cancelled_by_user\<rparr>
                         else f))"
      by blast
    have gterm: "terminal (file_status g)"
      using False by (cases "file_status g") (auto simp: terminal_def)
    have "\<forall>k. map_of (files st') k =
              (case map_of (files st) k of
                 None \<Rightarrow> None
               | Some f \<Rightarrow>
                   Some (if k \<in> file_id ` set (g # fs) \<and> \<not> terminal (file_status f)
                         then f\<lparr>file_status := Failed, error := Some msg_cancelled_by_user\<rparr>
                         else f))"
      using st'(6) g gterm by (auto split: option.splits)
    with st' False show ?thesis by auto
  next
    case True
    let ?g' = "g\<lparr>file_status := Failed, error := Some msg_cancelled_by_user\<rparr>"
    let ?st1 = "st\<lparr>files := AList.update (file_id g) ?g' (files st)\<rparr>"
    have upd: "updatePdfFile st (file_id g) [FStatus Failed, FError (Some msg_cancelled_by_user)]
                 = (Inr ?g', ?st1)"
      using g by (simp add: updatePdfFile_found spread_cancel)
    have rest: "\<forall>h \<in> set fs. map_of (files ?st1) (file_id h) = Some h"
    proof
      fix h assume h: "h \<in> set fs"
      then have "file_id h \<noteq> file_id g" using notin by (metis imageI)
      moreover have "map_of (files st) (file_id h) = Some h" using Cons.prems(2) h by simp
      ultimately show "map_of (files ?st1) (file_id h) = Some h"
        by (simp add: update_conv')
    qed
    from Cons.IH[OF dist rest] obtain st' where
      st': "cancel_files ?st1 fs = (None, st')" "jobs st' = jobs ?st1"
        "jobCurrentId st' = jobCurrentId ?st1" "fileCurrentId st' = fileCurrentId ?st1"
        "map fst (files st') = map fst (files ?st1)"
        "\<forall>k. map_of (files st') k =
              (case map_of (files ?st1) k of
                 None \<Rightarrow> None
               | Some f \<Rightarrow>
                   Some (if k \<in> file_id ` set fs \<and> \<not> terminal (file_status f)
                         then f\<lparr>file_status := Failed, error := Some msg_cancelled_by_user\<rparr>
                         else f))"
      by blast
    have nonterm: "\<not> terminal (file_status g)"
      using True by (auto simp: terminal_def)
    have "\<forall>k. map_of (files st') k =
              (case map_of (files st) k of
                 None \<Rightarrow> None
               | Some f \<Rightarrow>
                   Some (if k \<in> file_id ` set (g # fs) \<and> \<not> terminal (file_status f)
                         then f\<lparr>file_status := Failed, error := Some msg_cancelled_by_user\<rparr>
                         else f))"
    proof
      fix k
      show "map_of (files st') k =
              (case map_of (files st) k of
                 None \<Rightarrow> None
               | Some f \<Rightarrow>
                   Some (if k \<in> file_id ` set (g # fs) \<and> \<not> terminal (file_status f)
                         then f\<lparr>file_status := Failed, error := Some msg_cancelled_by_user\<rparr>
                         else f))"
      proof (cases "k = file_id g")
        case True
        then show ?thesis
          using st'(6)[rule_format, of k] g notin nonterm by (simp add: update_conv')
      next
        case False
        then show ?thesis
          using st'(6)[rule_format, of k] by (auto simp: update_conv' split: option.splits)
      qed
    qed
    moreover have "map fst (files st') = map fst (files st)"
      using st'(5) g by (simp add: update_keys_found)
    ultimately show ?thesis
      using st' True upd by simp
  qed
qed

lemma post_cancel_cases:
  assumes "store_inv st"
  shows "snd (post_cancel st b) = st \<or>
    (\<exists>j job st'. b = Some j \<and> map_of (jobs st) j = Some job \<and> \<not> terminal (job_status job) \<and>
       post_cancel st b = (\<lparr>code = 200, body = MessageBody msg_cancel_ok\<rparr>, st') \<and>
       jobs st' = AList.update j (job\<lparr>job_status := Failed\<rparr>) (jobs st) \<and>
       jobCurrentId st' = jobCurrentId st \<and> fileCurrentId st' = fileCurrentId st \<and>
       map fst (files st') = map fst (files st) \<and>
       (\<forall>k. map_of (files st') k =
          (case map_of (files st) k of
             None \<Rightarrow> None
           | Some f \<Rightarrow>
               Some (if jobId f = j \<and> \<not> terminal (file_status f)
                     then f\<lparr>file_status := Failed, error := Some msg_cancelled_by_user\<rparr>
                     else f))))"
proof (cases "\<exists>j job. b = Some j \<and> 0 < j \<and> map_of (jobs st) j = Some job \<and> \<not> terminal (job_status job)")
  case False
  then have "snd (post_cancel st b) = st"
    by (auto simp: post_cancel_def getPdfJob_def terminal_def split: option.splits)
  then show ?thesis ..
next
  case True
  then obtain j job where b: "b = Some j" and j0: "0 < j"
    and jj: "map_of (jobs st) j = Some job" and nt: "\<not> terminal (job_status job)"
    by blast
  have jid: "job_id job = j"
    using assms jj by (auto simp: store_inv_def)
  let ?job' = "job\<lparr>job_status := Failed\<rparr>"
  let ?st1 = "st\<lparr>jobs := AList.update j ?job' (jobs st)\<rparr>"
  have upd: "updatePdfJob st j [JStatus Failed] = (Inr ?job', ?st1)"
    using jj by (simp add: updatePdfJob_found spreadJob_def)
  have inv1: "store_inv ?st1"
    using assms jj jid by (intro store_inv_job_update) auto
  from cancel_files_effect[OF snapshot_facts(1)[OF inv1, of j] snapshot_facts(2)[OF inv1, of j]]
  obtain st' where st':
    "cancel_files ?st1 (getPdfFilesByJobId ?st1 j) = (None, st')"
    "jobs st' = jobs ?st1" "jobCurrentId st' = jobCurrentId ?st1"
    "fileCurrentId st' = fileCurrentId ?st1" "map fst (files st') = map fst (files ?st1)"
    "\<forall>k. map_of (files st') k =
        (case map_of (files ?st1) k of
           None \<Rightarrow> None
         | Some f \<Rightarrow>
             Some (if k \<in> file_id ` set (getPdfFilesByJobId ?st1 j) \<and> \<not> terminal (file_status f)
                   then f\<lparr>file_status := Failed, error := Some msg_cancelled_by_user\<rparr>
                   else f))"
    by blast
  have resp: "post_cancel st b = (\<lparr>code = 200, body = MessageBody msg_cancel_ok\<rparr>, st')"
    using b j0 jj nt upd st'(1) by (simp add: post_cancel_def getPdfJob_def terminal_def)
  have "\<forall>k. map_of (files st') k =
          (case map_of (files st) k of
             None \<Rightarrow> None
           | Some f \<Rightarrow>
               Some (if jobId f = j \<and> \<not> terminal (file_status f)
                     then f\<lparr>file_status := Failed, error := Some msg_cancelled_by_user\<rparr>
                     else f))"
  proof
    fix k
    show "map_of (files st') k =
          (case map_of (files st) k of
             None \<Rightarrow> None
           | Some f \<Rightarrow>
               Some (if jobId f = j \<and> \<not> terminal (file_status f)
                     then f\<lparr>file_status := Failed, error := Some msg_cancelled_by_user\<rparr>
                     else f))"
    proof (cases "map_of (files st) k")
      case None
      then show ?thesis using st'(6)[rule_format, of k] by simp
    next
      case (Some f)
      then have m: "map_of (files ?st1) k = Some f" by simp
      have "k \<in> file_id ` set (getPdfFilesByJobId ?st1 j) \<longleftrightarrow> jobId f = j"
        using snapshot_facts(3)[OF inv1, of k j] m by simp
      then show ?thesis using st'(6)[rule_format, of k] m Some by simp
    qed
  qed
  with b jj nt resp st'(2-5) show ?thesis by auto
qed

lemma post_cancel_effect:
  assumes "store_inv st" and "getPdfJob st j = Some job"
  shows "(\<not> terminal (job_status job) \<longrightarrow>
           (\<exists>st'. post_cancel st (Some j) = (\<lparr>code = 200, body = MessageBody msg_cancel_ok\<rparr>, st') \<and>
              getPdfJob st' j = Some (job\<lparr>job_status := Failed\<rparr>) \<and>
              (\<forall>k file. getPdfFile st k = Some file \<longrightarrow>
                 getPdfFile st' k =
                   Some (if jobId file = j \<and> \<not> terminal (file_status file)
                         then file\<lparr>file_status := Failed, error := Some msg_cancelled_by_user\<rparr>
                         else file)))) \<and>
         (terminal (job_status job) \<longrightarrow>
            post_cancel st (Some j) = (\<lparr>code = 400, body = ErrorBody msg_already_done\<rparr>, st))"
proof (intro conjI impI)
  assume "terminal (job_status job)"
  moreover have "0 < j" using assms by (auto simp: store_inv_def getPdfJob_def)
  ultimately show "post_cancel st (Some j) = (\<lparr>code = 400, body = ErrorBody msg_already_done\<rparr>, st)"
    using assms(2) by (simp add: post_cancel_def terminal_def)
next
  assume nt: "\<not> terminal (job_status job)"
  have j0: "0 < j" and jj: "map_of (jobs st) j = Some job" and jid: "job_id job = j"
    using assms by (auto simp: store_inv_def getPdfJob_def)
  let ?job' = "job\<lparr>job_status := Failed\<rparr>"
  let ?st1 = "st\<lparr>jobs := AList.update j ?job' (jobs st)\<rparr>"
  have upd: "updatePdfJob st j [JStatus Failed] = (Inr ?job', ?st1)"
    using jj by (simp add: updatePdfJob_found spreadJob_def)
  have inv1: "store_inv ?st1"
    using assms(1) jj jid by (intro store_inv_job_update) auto
  have files1: "files ?st1 = files st" by simp
  have snap: "getPdfFilesByJobId ?st1 j = getPdfFilesByJobId st j"
    by (simp add: getPdfFilesByJobId_def)
  from cancel_files_effect[OF snapshot_facts(1)[OF inv1, of j] snapshot_facts(2)[OF inv1, of j]]
  obtain st' where st':
    "cancel_files ?st1 (getPdfFilesByJobId ?st1 j) = (None, st')"
    "jobs st' = jobs ?st1"
    "\<forall>k. map_of (files st') k =
        (case map_of (files ?st1) k of
           None \<Rightarrow> None
         | Some f \<Rightarrow>
             Some (if k \<in> file_id ` set (getPdfFilesByJobId ?st1 j) \<and> \<not> terminal (file_status f)
                   then f\<lparr>file_status := Failed, error := Some msg_cancelled_by_user\<rparr>
                   else f))"
    by blast
  have resp: "post_cancel st (Some j) = (\<lparr>code = 200, body = MessageBody msg_cancel_ok\<rparr>, st')"
    using j0 jj nt upd st'(1) by (simp add: post_cancel_def getPdfJob_def terminal_def)
  have job': "getPdfJob st' j = Some ?job'"
    using st'(2) by (simp add: getPdfJob_def update_conv')
  have "\<forall>k file. getPdfFile st k = Some file \<longrightarrow>
                 getPdfFile st' k =
                   Some (if jobId file = j \<and> \<not> terminal (file_status file)
                         then file\<lparr>file_status := Failed, error := Some msg_cancelled_by_user\<rparr>
                         else file)"
  proof (intro allI impI)
    fix k row assume kf: "getPdfFile st k = Some row"
    then have m: "map_of (files ?st1) k = Some row" by (simp add: getPdfFile_def)
    have "k \<in> file_id ` set (getPdfFilesByJobId ?st1 j) \<longleftrightarrow> jobId row = j"
      using snapshot_facts(3)[OF inv1, of k j] m by simp
    then show "getPdfFile st' k =
                   Some (if jobId row = j \<and> \<not> terminal (file_status row)
                         then row\<lparr>file_status := Failed, error := Some msg_cancelled_by_user\<rparr>
                         else row)"
      using st'(3)[rule_format, of k] m by (simp add: getPdfFile_def)
  qed
  with resp job' show "\<exists>st'. post_cancel st (Some j) = (\<lparr>code = 200, body = MessageBody msg_cancel_ok\<rparr>, st') \<and>
              getPdfJob st' j = Some (job\<lparr>job_status := Failed\<rparr>) \<and>
              (\<forall>k file. getPdfFile st k = Some file \<longrightarrow>
                 getPdfFile st' k =
                   Some (if jobId file = j \<and> \<not> terminal (file_status file)
                         then file\<lparr>file_status := Failed, error := Some msg_cancelled_by_user\<rparr>
                         else file))"
    by blast
qed

section \<open>One stretch of processJob under the invariant\<close>

lemma proc_invD:
  assumes "sys_inv s" and "procs s j = pc"
  shows "pc \<noteq> Finished \<Longrightarrow>
           \<exists>job. map_of (jobs (storage s)) j = Some job \<and> job_status job \<noteq> Completed"
    and "distinct (map file_id (pc_files pc))"
    and "\<And>g. g \<in> set (pc_files pc) \<Longrightarrow>
           \<exists>f. map_of (files (storage s)) (file_id g) = Some f \<and> jobId f = j"
    and "progress_inv pc (storage s)"
  using assms unfolding sys_inv_def proc_inv_def by blast+

lemma distinct_ids_notin:
  "distinct (map file_id (g # rest)) \<Longrightarrow> h \<in> set rest \<Longrightarrow> file_id h \<noteq> file_id g"
  by (auto simp: image_iff)

text \<open>
  What one stretch of \<open>processJob\<close> does in a state that satisfies the invariant:
  nothing, the final update of the job, or one update of the file at the head.
\<close>

lemma resume_summary:
  assumes inv: "sys_inv s" and pc: "procs s j = pc"
    and res: "resume now world j pc (storage s) = (pc', st')"
  shows "(pc' = pc \<and> st' = storage s \<and>
            (pc = Finished \<or>
             (\<exists>g opts rest. pc = InProcessFile g opts [] rest \<and> world (file_id g) = NeverSettles))) \<or>
         (pc = ForLoop [] \<and> pc' = Finished \<and>
            (\<exists>job. map_of (jobs (storage s)) j = Some job \<and>
               st' = (storage s)\<lparr>jobs := AList.update j
                       (job\<lparr>job_status := Completed, completedAt := Some now\<rparr>) (jobs (storage s))\<rparr>)) \<or>
         (\<exists>g rest f f'. pc_files pc = g # rest \<and>
            map_of (files (storage s)) (file_id g) = Some f \<and>
            st' = (storage s)\<lparr>files := AList.update (file_id g) f' (files (storage s))\<rparr> \<and>
            file_id f' = file_id f \<and> jobId f' = jobId f \<and> percentage f \<le> percentage f' \<and>
            progress_inv pc' st' \<and>
            ((pc_files pc' = g # rest \<and> pc' \<noteq> Finished \<and> error f' = error f \<and>
              (file_status f' = file_status f \<or>
               file_status f' = Processing \<and> pc = ForLoop (g # rest))) \<or>
             (pc' = ForLoop rest \<and> terminal (file_status f') \<and>
              (\<exists>opts. pc = InProcessFile g opts [] rest) \<and>
              world (file_id g) \<noteq> NeverSettles \<and>
              (if world (file_id g) = FsThrows
               then f' = f\<lparr>file_status := Failed, error := Some msg_process_failed\<rparr>
               else file_status f' = Completed \<and> error f' = error f))))"
proof (cases pc)
  case Finished
  then show ?thesis using res by simp
next
  case (ForLoop fs)
  show ?thesis
  proof (cases fs)
    case Nil
    with ForLoop have pcn: "pc = ForLoop []" by simp
    from proc_invD(1)[OF inv pc] pcn obtain job where
      job: "map_of (jobs (storage s)) j = Some job" by auto
    have si: "store_inv (storage s)" using inv by (simp add: sys_inv_def)
    have "list_all (\<lambda>file. file_status file = Completed \<or> file_status file = Failed)
            (getPdfFilesByJobId (storage s) j)"
      unfolding list_all_iff
    proof
      fix g assume g: "g \<in> set (getPdfFilesByJobId (storage s) j)"
      then have m: "map_of (files (storage s)) (file_id g) = Some g"
        using snapshot_facts(2)[OF si, of j] by blast
      have "jobId g = j" using g by (simp add: getPdfFilesByJobId_def)
      then have "terminal (file_status g)"
        using inv m pc pcn unfolding sys_inv_def owned_inv_def by fastforce
      then show "file_status g = Completed \<or> file_status g = Failed"
        by (simp add: terminal_def)
    qed
    then show ?thesis
      using res pcn job by (auto simp: updatePdfJob_found spread_rollup Let_def)
  next
    case (Cons g rest)
    with ForLoop have pcc: "pc = ForLoop (g # rest)" by simp
    from proc_invD(3)[OF inv pc, of g] pcc obtain f where
      f: "map_of (files (storage s)) (file_id g) = Some f" "jobId f = j" by auto
    from proc_invD(1)[OF inv pc] pcc obtain job where
      job: "map_of (jobs (storage s)) j = Some job" by auto
    let ?f' = "f\<lparr>file_status := Processing\<rparr>"
    let ?st' = "(storage s)\<lparr>files := AList.update (file_id g) ?f' (files (storage s))\<rparr>"
    have r: "pc' = InProcessFile g (options job) processFile_progress rest" "st' = ?st'"
      using res pcc f job
      by (auto simp: updatePdfFile_found spread_processing getPdfJob_def)
    have pi: "progress_inv pc (storage s)" by (rule proc_invD(4)[OF inv pc])
    have sp: "\<And>k. stored_percentage ?st' k = stored_percentage (storage s) k"
      using f by (auto simp: stored_percentage_def update_conv' percentage_def)
    have "progress_inv pc' st'"
      using pi pcc r sp by (auto simp: processFile_progress_def)
    then show ?thesis
      using pcc r f by (auto simp: percentage_def)
  qed
next
  case (InProcessFile g opts ps rest)
  from proc_invD(3)[OF inv pc, of g] InProcessFile obtain f where
    f: "map_of (files (storage s)) (file_id g) = Some f" "jobId f = j" by auto
  have pi: "progress_inv pc (storage s)" by (rule proc_invD(4)[OF inv pc])
  have d: "distinct (map file_id (pc_files pc))" by (rule proc_invD(2)[OF inv pc])
  have cur: "stored_percentage (storage s) (file_id g) = percentage f"
    using f by (simp add: stored_percentage_def)
  have other: "\<And>f' h. h \<in> set rest \<Longrightarrow>
      stored_percentage ((storage s)\<lparr>files := AList.update (file_id g) f' (files (storage s))\<rparr>) (file_id h)
        = 0"
  proof -
    fix f' h assume h: "h \<in> set rest"
    then have "file_id h \<noteq> file_id g"
      using d InProcessFile distinct_ids_notin[of g rest h] by simp
    moreover have "stored_percentage (storage s) (file_id h) = 0"
      using pi InProcessFile h by simp
    ultimately show "stored_percentage ((storage s)\<lparr>files := AList.update (file_id g) f' (files (storage s))\<rparr>) (file_id h)
        = 0"
      by (simp add: stored_percentage_def update_conv')
  qed
  show ?thesis
  proof (cases ps)
    case (Cons p ps')
    let ?f' = "f\<lparr>progress := Some p\<rparr>"
    let ?st' = "(storage s)\<lparr>files := AList.update (file_id g) ?f' (files (storage s))\<rparr>"
    have r: "pc' = InProcessFile g opts ps' rest" "st' = ?st'"
      using res InProcessFile Cons f by (auto simp: updatePdfFile_found spread_progress)
    have le: "percentage f \<le> p" "p \<le> 100" "sorted (p # ps')" "\<forall>q \<in> set ps'. q \<le> 100"
      using pi InProcessFile Cons cur by auto
    have new: "stored_percentage ?st' (file_id g) = p"
      by (simp add: stored_percentage_def update_conv' percentage_def or_number_def)
    have "progress_inv pc' st'"
      unfolding r using le new other by auto
    moreover have "percentage f \<le> percentage ?f'"
      using le(1) by (simp add: percentage_def or_number_def)
    ultimately show ?thesis
      using InProcessFile Cons r f by auto
  next
    case Nil
    have c100: "percentage f \<le> 100" using pi InProcessFile cur by simp
    consider (throws) "world (file_id g) = FsThrows"
      | (unsettled) "world (file_id g) = NeverSettles"
      | (written) "world (file_id g) \<noteq> FsThrows" "world (file_id g) \<noteq> NeverSettles"
      by blast
    then show ?thesis
    proof cases
      case throws
      let ?f' = "f\<lparr>file_status := Failed, error := Some msg_process_failed\<rparr>"
      let ?st' = "(storage s)\<lparr>files := AList.update (file_id g) ?f' (files (storage s))\<rparr>"
      have r: "pc' = ForLoop rest" "st' = ?st'"
        using res InProcessFile Nil f throws
        by (auto simp: processFile_result_def Let_def catch_file_def updatePdfFile_found spread_failed)
      have "progress_inv pc' st'" unfolding r using other by simp
      then show ?thesis
        using InProcessFile Nil r f throws by (auto simp: percentage_def terminal_def)
    next
      case unsettled
      have "pc' = pc" "st' = storage s"
        using res InProcessFile Nil unsettled by (auto simp: processFile_result_def Let_def)
      then show ?thesis
        using InProcessFile Nil unsettled by auto
    next
      case written
      then obtain result where
        pr: "processFile_result (originalName g) outputDir opts (world (file_id g)) = Some (Inr result)"
        by (cases "world (file_id g)") (auto simp: processFile_result_def Let_def)
      let ?f1 = "f\<lparr>progress := Some 100\<rparr>"
      let ?st1 = "(storage s)\<lparr>files := AList.update (file_id g) ?f1 (files (storage s))\<rparr>"
      let ?f' = "?f1\<lparr>file_status := Completed,
                     convertedName := Some (res_convertedName result),
                     convertedSize := Some (res_convertedSize result),
                     isPdfA := Some (res_isPdfA result),
                     hasOcr := Some (res_hasOcr result),
                     progress := Some 100,
                     storagePath := Some (res_outputPath result),
                     downloadUrl := Some (''/files/'' @ path_basename (res_outputPath result))\<rparr>"
      let ?st' = "(storage s)\<lparr>files := AList.update (file_id g) ?f' (files (storage s))\<rparr>"
      have u1: "updatePdfFile (storage s) (file_id g) [FProgress (Some 100)] = (Inr ?f1, ?st1)"
        using f by (simp add: updatePdfFile_found spread_progress)
      have m1: "map_of (files ?st1) (file_id g) = Some ?f1" by (simp add: update_conv')
      have u2: "updatePdfFile ?st1 (file_id g)
                  [FStatus Completed,
                        FConvertedName (Some (res_convertedName result)),
                        FConvertedSize (Some (res_convertedSize result)),
                        FIsPdfA (Some (res_isPdfA result)),
                        FHasOcr (Some (res_hasOcr result)),
                        FProgress (Some 100),
                        FStoragePath (Some (res_outputPath result)),
                        FDownloadUrl (Some (''/files/'' @ path_basename (res_outputPath result)))]
                = (Inr ?f', ?st')"
        by (simp only: updatePdfFile_found[OF m1] spread_completed) simp
      have r: "pc' = ForLoop rest" "st' = ?st'"
        using res InProcessFile Nil pr u1 u2 by auto
      have "progress_inv pc' st'" unfolding r using other by simp
      moreover have "percentage f \<le> percentage ?f'"
        using c100 by (simp add: percentage_def or_number_def)
      ultimately show ?thesis
        using InProcessFile Nil r f written by (auto simp: terminal_def)
    qed
  qed
qed

section \<open>The invariant holds in every reachable state\<close>

lemma progress_inv_cong:
  "(\<And>h. h \<in> set (pc_files pc) \<Longrightarrow>
      stored_percentage st' (file_id h) = stored_percentage st (file_id h)) \<Longrightarrow>
   progress_inv pc st' = progress_inv pc st"
  by (cases pc) auto

lemma pc_files_nonempty: "pc_files pc = g # rest \<Longrightarrow> pc \<noteq> Finished"
  by (cases pc) auto

lemma sys_inv_file_update:
  assumes inv: "sys_inv s" and pc: "procs s j = pc"
    and pcf: "pc_files pc = g # rest"
    and f: "map_of (files (storage s)) (file_id g) = Some f"
    and ids: "file_id f' = file_id f" "jobId f' = jobId f"
    and st': "st' = (storage s)\<lparr>files := AList.update (file_id g) f' (files (storage s))\<rparr>"
    and prog: "progress_inv pc' st'"
    and shape: "(pc_files pc' = g # rest \<and> pc' \<noteq> Finished) \<or>
                (pc' = ForLoop rest \<and> terminal (file_status f'))"
  shows "sys_inv (s\<lparr>storage := st', procs := (procs s)(j := pc')\<rparr>)"
proof -
  let ?st = "storage s"
  let ?s' = "s\<lparr>storage := st', procs := (procs s)(j := pc')\<rparr>"
  have si: "store_inv ?st" and oi: "owned_inv s" and ci: "completedAt_inv ?st"
    and pi: "\<And>j0. proc_inv s j0"
    using inv by (auto simp: sys_inv_def)
  have fj: "jobId f = j"
    using proc_invD(3)[OF inv pc, of g] pcf f by auto
  have fid: "file_id f = file_id g"
    using si f by (auto simp: store_inv_def)
  have F': "\<And>k. map_of (files st') k = (if k = file_id g then Some f' else map_of (files ?st) k)"
    by (simp add: st' update_conv')
  have J': "jobs st' = jobs ?st" and cnt: "jobCurrentId st' = jobCurrentId ?st"
    "fileCurrentId st' = fileCurrentId ?st"
    by (simp_all add: st')
  have keys: "map fst (files st') = map fst (files ?st)"
    using f by (simp add: st' update_keys_found)
  have d: "distinct (map file_id (g # rest))"
    using proc_invD(2)[OF inv pc] pcf by simp
  have sub: "set (pc_files pc') \<subseteq> set (g # rest)"
    using shape by auto
  have d': "distinct (map file_id (pc_files pc'))"
    using shape d by auto
  have pcnf: "pc \<noteq> Finished" using pcf by (rule pc_files_nonempty)
  \<comment> \<open>the store\<close>
  have 1: "store_inv st'"
    using si f ids fid unfolding store_inv_def J' cnt keys F' by auto
  \<comment> \<open>the invocations\<close>
  have 2: "proc_inv ?s' j0" for j0
  proof (cases "j0 = j")
    case True
    have a: "\<exists>job. map_of (jobs st') j = Some job \<and> job_status job \<noteq> Completed"
      using proc_invD(1)[OF inv pc pcnf] by (simp add: J')
    have b: "\<exists>x. map_of (files st') (file_id h) = Some x \<and> jobId x = j"
      if "h \<in> set (pc_files pc')" for h
    proof (cases "file_id h = file_id g")
      case True
      then show ?thesis using ids fj by (simp add: F')
    next
      case False
      have "h \<in> set (pc_files pc)" using that sub pcf False by auto
      then show ?thesis using proc_invD(3)[OF inv pc, of h] False by (simp add: F')
    qed
    have nf': "pc' \<noteq> Finished" using shape by auto
    show ?thesis
      unfolding proc_inv_def using True a b d' prog nf' by simp
  next
    case False
    have ne: "file_id h \<noteq> file_id g" if "h \<in> set (pc_files (procs s j0))" for h
    proof
      assume e: "file_id h = file_id g"
      from pi[of j0] that obtain x where
        "map_of (files ?st) (file_id h) = Some x" "jobId x = j0"
        unfolding proc_inv_def by blast
      with e f fj False show False by simp
    qed
    have sp: "stored_percentage st' (file_id h) = stored_percentage ?st (file_id h)"
      if "h \<in> set (pc_files (procs s j0))" for h
      using ne[OF that] by (simp add: stored_percentage_def F')
    have "progress_inv (procs s j0) st' = progress_inv (procs s j0) ?st"
      by (rule progress_inv_cong) (rule sp)
    then show ?thesis
      using pi[of j0] False ne unfolding proc_inv_def by (auto simp: J' F')
  qed
  \<comment> \<open>ownership\<close>
  have 3: "owned_inv ?s'"
    unfolding owned_inv_def
  proof (intro allI impI)
    fix k x assume kx: "map_of (files (storage ?s')) k = Some x"
    show "terminal (file_status x) \<or> k \<in> file_id ` set (pc_files (procs ?s' (jobId x)))"
    proof (cases "k = file_id g")
      case True
      then have "x = f'" using kx by (simp add: F')
      then show ?thesis using shape True ids fj by auto
    next
      case False
      then have m: "map_of (files ?st) k = Some x" using kx by (simp add: F')
      then have o: "terminal (file_status x) \<or> k \<in> file_id ` set (pc_files (procs s (jobId x)))"
        using oi unfolding owned_inv_def by blast
      show ?thesis
      proof (cases "jobId x = j")
        case True
        from o show ?thesis
        proof
          assume "terminal (file_status x)" then show ?thesis ..
        next
          assume "k \<in> file_id ` set (pc_files (procs s (jobId x)))"
          then have "k \<in> file_id ` set (g # rest)" using True pc pcf by simp
          then have "k \<in> file_id ` set rest" using False by auto
          moreover have "set rest \<subseteq> set (pc_files pc')" using shape by auto
          ultimately have "k \<in> file_id ` set (pc_files pc')" by auto
          then show ?thesis using True by simp
        qed
      next
        case False
        then show ?thesis using o by simp
      qed
    qed
  qed
  have 4: "completedAt_inv st'"
    using ci by (simp add: completedAt_inv_def J')
  show ?thesis
    unfolding sys_inv_def
  proof (intro conjI allI)
    show "store_inv (storage ?s')" using 1 by simp
    show "proc_inv ?s' j0" for j0 by (rule 2)
    show "owned_inv ?s'" by (rule 3)
    show "completedAt_inv (storage ?s')" using 4 by simp
  qed
qed

lemma sys_inv_rollup:
  assumes inv: "sys_inv s" and pc: "procs s j = ForLoop []"
    and job: "map_of (jobs (storage s)) j = Some job"
    and st': "st' = (storage s)\<lparr>jobs := AList.update j
                (job\<lparr>job_status := Completed, completedAt := Some now\<rparr>) (jobs (storage s))\<rparr>"
  shows "sys_inv (s\<lparr>storage := st', procs := (procs s)(j := Finished)\<rparr>)"
proof -
  let ?st = "storage s"
  let ?s' = "s\<lparr>storage := st', procs := (procs s)(j := Finished)\<rparr>"
  have si: "store_inv ?st" and oi: "owned_inv s" and ci: "completedAt_inv ?st"
    and pi: "\<And>j0. proc_inv s j0"
    using inv by (auto simp: sys_inv_def)
  have J': "\<And>k. map_of (jobs st') k =
      (if k = j then Some (job\<lparr>job_status := Completed, completedAt := Some now\<rparr>)
       else map_of (jobs ?st) k)"
    by (simp add: st' update_conv')
  have F': "files st' = files ?st" and cnt: "jobCurrentId st' = jobCurrentId ?st"
    "fileCurrentId st' = fileCurrentId ?st"
    by (simp_all add: st')
  have keys: "map fst (jobs st') = map fst (jobs ?st)"
    using job by (simp add: st' update_keys_found)
  have 1: "store_inv st'"
    using si job unfolding store_inv_def F' cnt keys J' by auto
  have 2: "proc_inv ?s' j0" for j0
  proof (cases "j0 = j")
    case True
    then show ?thesis by (simp add: proc_inv_def J')
  next
    case False
    have "progress_inv (procs s j0) st' = progress_inv (procs s j0) ?st"
      by (rule progress_inv_cong) (simp add: stored_percentage_def F')
    then show ?thesis
      using pi[of j0] False unfolding proc_inv_def by (auto simp: J' F')
  qed
  have 3: "owned_inv ?s'"
    unfolding owned_inv_def
  proof (intro allI impI)
    fix k x assume "map_of (files (storage ?s')) k = Some x"
    then have m: "map_of (files ?st) k = Some x" by (simp add: F')
    then have o: "terminal (file_status x) \<or> k \<in> file_id ` set (pc_files (procs s (jobId x)))"
      using oi unfolding owned_inv_def by blast
    show "terminal (file_status x) \<or> k \<in> file_id ` set (pc_files (procs ?s' (jobId x)))"
    proof (cases "jobId x = j")
      case True
      then show ?thesis using o pc by simp
    next
      case False
      then show ?thesis using o by simp
    qed
  qed
  have 4: "completedAt_inv st'"
    using ci unfolding completedAt_inv_def J' by auto
  show ?thesis
    unfolding sys_inv_def
  proof (intro conjI allI)
    show "store_inv (storage ?s')" using 1 by simp
    show "proc_inv ?s' j0" for j0 by (rule 2)
    show "owned_inv ?s'" by (rule 3)
    show "completedAt_inv (storage ?s')" using 4 by simp
  qed
qed

lemma sys_inv_resume:
  assumes inv: "sys_inv s"
  shows "sys_inv (step (Resume j now world) s)"
proof -
  obtain pc' st' where res: "resume now world j (procs s j) (storage s) = (pc', st')"
    by (cases "resume now world j (procs s j) (storage s)")
  have s': "step (Resume j now world) s = s\<lparr>storage := st', procs := (procs s)(j := pc')\<rparr>"
    using res by simp
  from resume_summary[OF inv refl res]
  consider
    (idle) "pc' = procs s j" "st' = storage s"
  | (rollup) job where "procs s j = ForLoop []" "pc' = Finished"
      "map_of (jobs (storage s)) j = Some job"
      "st' = (storage s)\<lparr>jobs := AList.update j
          (job\<lparr>job_status := Completed, completedAt := Some now\<rparr>) (jobs (storage s))\<rparr>"
  | (upd) g rest f f' where "pc_files (procs s j) = g # rest"
      "map_of (files (storage s)) (file_id g) = Some f"
      "st' = (storage s)\<lparr>files := AList.update (file_id g) f' (files (storage s))\<rparr>"
      "file_id f' = file_id f" "jobId f' = jobId f" "progress_inv pc' st'"
      "(pc_files pc' = g # rest \<and> pc' \<noteq> Finished) \<or>
       (pc' = ForLoop rest \<and> terminal (file_status f'))"
    by blast
  then show ?thesis
  proof cases
    case idle
    have "(procs s)(j := procs s j) = procs s" by auto
    then have "step (Resume j now world) s = s" using s' idle by simp
    then show ?thesis using inv by simp
  next
    case rollup
    show ?thesis unfolding s' rollup(2)
      by (rule sys_inv_rollup[OF inv rollup(1) rollup(3) rollup(4)])
  next
    case upd
    show ?thesis unfolding s'
      by (rule sys_inv_file_update[OF inv refl upd(1) upd(2) upd(4) upd(5) upd(3) upd(6) upd(7)])
  qed
qed

lemma sys_inv_cancel:
  assumes inv: "sys_inv s"
  shows "sys_inv (step (Cancel b) s)"
proof -
  let ?st = "storage s"
  have si: "store_inv ?st" and oi: "owned_inv s" and ci: "completedAt_inv ?st"
    and pi: "\<And>j0. proc_inv s j0"
    using inv by (auto simp: sys_inv_def)
  from post_cancel_cases[OF si, of b]
  show ?thesis
  proof
    assume "snd (post_cancel ?st b) = ?st"
    then have "step (Cancel b) s = s" by simp
    then show ?thesis using inv by simp
  next
    assume "\<exists>j job st'. b = Some j \<and> map_of (jobs ?st) j = Some job \<and> \<not> terminal (job_status job) \<and>
       post_cancel ?st b = (\<lparr>code = 200, body = MessageBody msg_cancel_ok\<rparr>, st') \<and>
       jobs st' = AList.update j (job\<lparr>job_status := Failed\<rparr>) (jobs ?st) \<and>
       jobCurrentId st' = jobCurrentId ?st \<and> fileCurrentId st' = fileCurrentId ?st \<and>
       map fst (files st') = map fst (files ?st) \<and>
       (\<forall>k. map_of (files st') k =
          (case map_of (files ?st) k of
             None \<Rightarrow> None
           | Some f \<Rightarrow>
               Some (if jobId f = j \<and> \<not> terminal (file_status f)
                     then f\<lparr>file_status := Failed, error := Some msg_cancelled_by_user\<rparr>
                     else f)))"
    then obtain j job st' where b: "b = Some j"
      and job: "map_of (jobs ?st) j = Some job" and nt: "\<not> terminal (job_status job)"
      and pc: "post_cancel ?st b = (\<lparr>code = 200, body = MessageBody msg_cancel_ok\<rparr>, st')"
      and Jl: "jobs st' = AList.update j (job\<lparr>job_status := Failed\<rparr>) (jobs ?st)"
      and cnt: "jobCurrentId st' = jobCurrentId ?st" "fileCurrentId st' = fileCurrentId ?st"
      and keys: "map fst (files st') = map fst (files ?st)"
      and Fl: "\<forall>k. map_of (files st') k =
          (case map_of (files ?st) k of
             None \<Rightarrow> None
           | Some f \<Rightarrow>
               Some (if jobId f = j \<and> \<not> terminal (file_status f)
                     then f\<lparr>file_status := Failed, error := Some msg_cancelled_by_user\<rparr>
                     else f))"
      by blast
    define c where "c = (\<lambda>f::PdfFile. if jobId f = j \<and> \<not> terminal (file_status f)
                     then f\<lparr>file_status := Failed, error := Some msg_cancelled_by_user\<rparr>
                     else f)"
    have c: "file_id (c f) = file_id f" "jobId (c f) = jobId f" "progress (c f) = progress f"
      "terminal (file_status (c f)) \<or> c f = f" for f
      by (auto simp: c_def terminal_def)
    have F': "map_of (files st') k = map_option c (map_of (files ?st) k)" for k
      using Fl[rule_format, of k] by (simp add: c_def split: option.splits)
    have J': "map_of (jobs st') k =
        (if k = j then Some (job\<lparr>job_status := Failed\<rparr>) else map_of (jobs ?st) k)" for k
      by (simp add: Jl update_conv')
    have jkeys: "map fst (jobs st') = map fst (jobs ?st)"
      using job by (simp add: Jl update_keys_found)
    let ?s' = "s\<lparr>storage := st'\<rparr>"
    have s': "step (Cancel b) s = ?s'" using pc by simp
    have 1: "store_inv st'"
      using si job unfolding store_inv_def cnt keys jkeys J' F' by (auto simp: c)
    have sp: "stored_percentage st' k = stored_percentage ?st k" for k
      by (cases "map_of (files ?st) k") (simp_all add: stored_percentage_def F' percentage_def c)
    have 2: "proc_inv ?s' j0" for j0
    proof -
      have "progress_inv (procs s j0) st' = progress_inv (procs s j0) ?st"
        by (rule progress_inv_cong) (rule sp)
      moreover have "procs s j \<noteq> Finished"
        using pi[of j] job nt unfolding proc_inv_def terminal_def by auto
      ultimately show ?thesis
        using pi[of j0] unfolding proc_inv_def by (auto simp: J' F' c)
    qed
    have 3: "owned_inv ?s'"
      unfolding owned_inv_def
    proof (intro allI impI)
      fix k x assume "map_of (files (storage ?s')) k = Some x"
      then obtain f where m: "map_of (files ?st) k = Some f" and x: "x = c f"
        by (auto simp: F')
      from m have o: "terminal (file_status f) \<or> k \<in> file_id ` set (pc_files (procs s (jobId f)))"
        using oi unfolding owned_inv_def by blast
      from c(4)[of f]
      show "terminal (file_status x) \<or> k \<in> file_id ` set (pc_files (procs ?s' (jobId x)))"
      proof
        assume "terminal (file_status (c f))" then show ?thesis using x by simp
      next
        assume "c f = f" then show ?thesis using x o by simp
      qed
    qed
    have none: "completedAt job = None"
      using ci job nt unfolding completedAt_inv_def terminal_def by fastforce
    have 4: "completedAt_inv st'"
      using ci none unfolding completedAt_inv_def J' by auto
    show ?thesis
      unfolding s' sys_inv_def
    proof (intro conjI allI)
      show "store_inv (storage ?s')" using 1 by simp
      show "proc_inv ?s' j0" for j0 by (rule 2)
      show "owned_inv ?s'" by (rule 3)
      show "completedAt_inv (storage ?s')" using 4 by simp
    qed
  qed
qed

lemma createFiles_effect:
  assumes "createFiles st j ups = (rows, st')"
    and "\<forall>k f. map_of (files st) k = Some f \<longrightarrow> k < fileCurrentId st"
    and "distinct (map fst (files st))"
  shows "jobs st' = jobs st \<and> jobCurrentId st' = jobCurrentId st \<and>
         fileCurrentId st \<le> fileCurrentId st' \<and>
         distinct (map fst (files st')) \<and> distinct (map file_id rows) \<and>
         length rows = length ups \<and>
         (\<forall>g \<in> set rows. fileCurrentId st \<le> file_id g \<and> file_id g < fileCurrentId st' \<and>
            jobId g = j \<and> file_status g = Pending \<and> progress g = Some 0 \<and>
            map_of (files st') (file_id g) = Some g) \<and>
         (\<forall>k. k < fileCurrentId st \<longrightarrow> map_of (files st') k = map_of (files st) k) \<and>
         (\<forall>k f. map_of (files st') k = Some f \<longrightarrow>
            map_of (files st) k = Some f \<or> f \<in> set rows \<and> k = file_id f)"
  using assms
proof (induction ups arbitrary: st rows st')
  case Nil
  then show ?case by simp
next
  case (Cons u ups)
  let ?i = "fileCurrentId st"
  obtain g st1 where cf: "createPdfFile st
             \<lparr>ins_jobId = j, ins_originalName = up_originalname u,
              ins_originalSize = up_size u, ins_convertedName = None,
              ins_convertedSize = None, ins_file_status = Pending, ins_error = None,
              ins_isPdfA = None, ins_hasOcr = None, ins_progress = None,
              ins_storagePath = Some (up_path u), ins_downloadUrl = None\<rparr> = (g, st1)"
    by fastforce
  obtain rows' st2 where cr: "createFiles st1 j ups = (rows', st2)"
    by fastforce
  have res: "rows = g # rows'" "st' = st2"
    using Cons.prems(1) cf cr by auto
  have g: "file_id g = ?i" "jobId g = j" "file_status g = Pending" "progress g = Some 0"
    and st1: "st1 = st\<lparr>files := AList.update ?i g (files st), fileCurrentId := ?i + 1\<rparr>"
    using cf by (auto simp: createPdfFile_def Let_def)
  have F1: "map_of (files st1) k = (if k = ?i then Some g else map_of (files st) k)" for k
    by (simp add: st1 update_conv')
  have below1: "\<forall>k f. map_of (files st1) k = Some f \<longrightarrow> k < fileCurrentId st1"
    using Cons.prems(2) by (auto simp: st1 update_conv' less_Suc_eq)
  have d1: "distinct (map fst (files st1))"
    using Cons.prems(3) by (simp add: st1 distinct_update)
  note IH = Cons.IH[OF cr below1 d1]
  have c1: "fileCurrentId st1 = ?i + 1" "jobs st1 = jobs st" "jobCurrentId st1 = jobCurrentId st"
    by (simp_all add: st1)
  have rows'_ids: "\<forall>h \<in> set rows'. ?i < file_id h"
    using IH c1 by auto
  then have gnot: "file_id g \<notin> file_id ` set rows'"
    using g(1) by auto
  have gi: "map_of (files st2) ?i = Some g"
    using IH c1 F1 by auto
  have a: "\<forall>h \<in> set rows. fileCurrentId st \<le> file_id h \<and> file_id h < fileCurrentId st' \<and>
            jobId h = j \<and> file_status h = Pending \<and> progress h = Some 0 \<and>
            map_of (files st') (file_id h) = Some h"
    using IH c1 g gi unfolding res by auto
  have b: "\<forall>k. k < fileCurrentId st \<longrightarrow> map_of (files st') k = map_of (files st) k"
    using IH c1 F1 unfolding res by auto
  have c: "\<forall>k f. map_of (files st') k = Some f \<longrightarrow>
            map_of (files st) k = Some f \<or> f \<in> set rows \<and> k = file_id f"
  proof (intro allI impI)
    fix k f assume "map_of (files st') k = Some f"
    then have "map_of (files st1) k = Some f \<or> f \<in> set rows' \<and> k = file_id f"
      using IH unfolding res by blast
    then show "map_of (files st) k = Some f \<or> f \<in> set rows \<and> k = file_id f"
      using g(1) unfolding res by (auto simp: F1 split: if_splits)
  qed
  have "distinct (map file_id rows)"
    using IH gnot unfolding res by simp
  moreover have "length rows = length (u # ups)"
    using IH unfolding res by simp
  ultimately show ?case
    using IH c1 a b c unfolding res by simp
qed

lemma multer_array_accepts: "multer_array incoming = Inr reqFiles \<Longrightarrow> reqFiles = incoming"
  by (induction incoming arbitrary: reqFiles) (auto split: if_splits sum.splits)

lemma sys_inv_upload:
  assumes inv: "sys_inv s"
  shows "sys_inv (step (Upload incoming optionsRaw now) s)"
proof (cases "\<exists>opts. multer_array incoming = Inr incoming \<and> incoming \<noteq> [] \<and>
                Option.bind optionsRaw conversionOptionsSchema_parse = Some opts")
  case False
  have "step (Upload incoming optionsRaw now) s = s"
  proof (cases "multer_array incoming")
    case (Inl e)
    then show ?thesis by (simp add: upload_route_def)
  next
    case (Inr reqFiles)
    then have "reqFiles = incoming" by (rule multer_array_accepts)
    with Inr False show ?thesis
      by (auto simp: upload_route_def post_upload_def split: option.splits)
  qed
  then show ?thesis using inv by simp
next
  case True
  then obtain opts where acc: "multer_array incoming = Inr incoming" and ne: "incoming \<noteq> []"
    and po: "Option.bind optionsRaw conversionOptionsSchema_parse = Some opts"
    by blast
  let ?st = "storage s"
  let ?jn = "jobCurrentId ?st"
  have si: "store_inv ?st" and oi: "owned_inv s" and ci: "completedAt_inv ?st"
    and pi: "\<And>j0. proc_inv s j0"
    using inv by (auto simp: sys_inv_def)
  define job where "job = \<lparr>job_id = ?jn, job_status = Pending, createdAt = now,
                    completedAt = None, options = opts\<rparr>"
  define st1 where "st1 = ?st\<lparr>jobs := AList.update ?jn job (jobs ?st), jobCurrentId := ?jn + 1\<rparr>"
  have cj: "createPdfJob ?st \<lparr>ins_job_status = Pending, ins_options = opts\<rparr> now = (job, st1)"
    by (simp add: createPdfJob_def Let_def job_def st1_def)
  obtain rows st2 where cf: "createFiles st1 ?jn incoming = (rows, st2)"
    by fastforce
  have below1: "\<forall>k f. map_of (files st1) k = Some f \<longrightarrow> k < fileCurrentId st1"
    using si by (auto simp: store_inv_def st1_def)
  have d1: "distinct (map fst (files st1))"
    using si by (simp add: store_inv_def st1_def)
  note E = createFiles_effect[OF cf below1 d1]
  have st1s: "files st1 = files ?st" "fileCurrentId st1 = fileCurrentId ?st"
    "jobCurrentId st1 = ?jn + 1" "jobs st1 = AList.update ?jn job (jobs ?st)"
    by (simp_all add: st1_def)
  have J2: "map_of (jobs st2) ?jn = Some job"
    using E by (simp add: st1s update_conv')
  define job' where "job' = job\<lparr>job_status := Processing\<rparr>"
  define st3 where "st3 = st2\<lparr>jobs := AList.update ?jn job' (jobs st2)\<rparr>"
  have ps: "processJob_start ?jn rows st2 = (ForLoop rows, st3)"
    using J2 by (simp add: processJob_start_def updatePdfJob_found spreadJob_def st3_def job'_def)
  let ?s' = "s\<lparr>storage := st3, procs := (procs s)(?jn := ForLoop rows)\<rparr>"
  have s': "step (Upload incoming optionsRaw now) s = ?s'"
    using acc ne po cj cf ps by (simp add: upload_route_def post_upload_def job_def)
  have J3: "map_of (jobs st3) k = (if k = ?jn then Some job' else map_of (jobs ?st) k)" for k
    using E by (simp add: st3_def st1s update_conv')
  have F3: "files st3 = files st2" and c3: "jobCurrentId st3 = ?jn + 1"
    "fileCurrentId st3 = fileCurrentId st2"
    using E by (simp_all add: st3_def st1s)
  have dj3: "distinct (map fst (jobs st3))"
    using si E by (simp add: st3_def st1s store_inv_def distinct_update)
  have old: "map_of (files st3) k = map_of (files ?st) k" if "k < fileCurrentId ?st" for k
    using E that by (simp add: F3 st1s)
  have oldk: "k < fileCurrentId ?st \<and> jobId f < ?jn \<and> file_id f = k"
    if "map_of (files ?st) k = Some f" for k f
    using si that by (auto simp: store_inv_def)
  have new: "map_of (files ?st) k = Some f \<or> f \<in> set rows \<and> k = file_id f"
    if "map_of (files st3) k = Some f" for k f
    using E that by (simp add: F3 st1s)
  have rowf: "fileCurrentId ?st \<le> file_id g \<and> file_id g < fileCurrentId st3 \<and>
            jobId g = ?jn \<and> file_status g = Pending \<and> progress g = Some 0 \<and>
            map_of (files st3) (file_id g) = Some g" if "g \<in> set rows" for g
    using E that by (simp add: F3 c3 st1s)
  have fc: "fileCurrentId ?st \<le> fileCurrentId st3"
    using E by (simp add: c3 st1s)
  have jn0: "0 < ?jn" using si by (simp add: store_inv_def)
  have jfresh: "map_of (jobs ?st) ?jn = None"
  proof (cases "map_of (jobs ?st) ?jn")
    case (Some x)
    then have "?jn < ?jn" using si unfolding store_inv_def by blast
    then show ?thesis by simp
  qed simp
  have idle: "procs s ?jn = Finished"
  proof (rule ccontr)
    assume "procs s ?jn \<noteq> Finished"
    then have "\<exists>x. map_of (jobs ?st) ?jn = Some x"
      using pi[of ?jn] unfolding proc_inv_def by blast
    then show False using jfresh by simp
  qed
  have 1: "store_inv st3"
    unfolding store_inv_def
  proof (intro conjI allI impI)
    show "0 < jobCurrentId st3" by (simp add: c3)
    show "distinct (map fst (jobs st3))" by (rule dj3)
    show "distinct (map fst (files st3))" using E by (simp add: F3)
  next
    fix k x assume "map_of (jobs st3) k = Some x"
    then have "job_id x = k \<and> 0 < k \<and> k < jobCurrentId st3"
      using si jn0 unfolding store_inv_def
      by (auto simp: J3 c3 job'_def job_def less_Suc_eq split: if_splits)
    then show "job_id x = k" "0 < k" "k < jobCurrentId st3" by simp_all
  next
    fix k f assume "map_of (files st3) k = Some f"
    from new[OF this] have "file_id f = k \<and> k < fileCurrentId st3 \<and> jobId f < jobCurrentId st3"
    proof
      assume "map_of (files ?st) k = Some f"
      from oldk[OF this] show ?thesis using fc by (simp add: c3)
    next
      assume "f \<in> set rows \<and> k = file_id f"
      then show ?thesis using rowf[of f] by (simp add: c3)
    qed
    then show "file_id f = k" "k < fileCurrentId st3" "jobId f < jobCurrentId st3" by simp_all
  qed
  have 2: "proc_inv ?s' j0" for j0
  proof (cases "j0 = ?jn")
    case True
    have "stored_percentage st3 (file_id g) = 0" if "g \<in> set rows" for g
      using rowf[OF that] by (simp add: stored_percentage_def percentage_def or_number_def)
    moreover have "distinct (map file_id rows)" using E by simp
    moreover have "\<exists>f. map_of (files st3) (file_id g) = Some f \<and> jobId f = ?jn"
      if "g \<in> set rows" for g
      using rowf[OF that] by simp
    ultimately show ?thesis
      unfolding proc_inv_def using True by (simp add: J3 job'_def)
  next
    case False
    have ex: "map_of (files st3) (file_id h) = map_of (files ?st) (file_id h)"
      if "h \<in> set (pc_files (procs s j0))" for h
    proof -
      from pi[of j0] that obtain x where "map_of (files ?st) (file_id h) = Some x"
        unfolding proc_inv_def by blast
      from oldk[OF this] show ?thesis by (simp add: old)
    qed
    have "progress_inv (procs s j0) st3 = progress_inv (procs s j0) ?st"
      by (rule progress_inv_cong) (simp add: stored_percentage_def ex)
    then show ?thesis
      using pi[of j0] False ex unfolding proc_inv_def by (auto simp: J3)
  qed
  have 3: "owned_inv ?s'"
    unfolding owned_inv_def
  proof (intro allI impI)
    fix k x assume "map_of (files (storage ?s')) k = Some x"
    then have "map_of (files st3) k = Some x" by simp
    from new[OF this]
    show "terminal (file_status x) \<or> k \<in> file_id ` set (pc_files (procs ?s' (jobId x)))"
    proof
      assume m: "map_of (files ?st) k = Some x"
      then have "jobId x \<noteq> ?jn" using oldk[OF m] by simp
      moreover have "terminal (file_status x) \<or> k \<in> file_id ` set (pc_files (procs s (jobId x)))"
        using oi m unfolding owned_inv_def by blast
      ultimately show ?thesis by simp
    next
      assume "x \<in> set rows \<and> k = file_id x"
      then show ?thesis using rowf[of x] by simp
    qed
  qed
  have 4: "completedAt_inv st3"
    using ci unfolding completedAt_inv_def J3 by (auto simp: job'_def job_def)
  show ?thesis
    unfolding s' sys_inv_def
  proof (intro conjI allI)
    show "store_inv (storage ?s')" using 1 by simp
    show "proc_inv ?s' j0" for j0 by (rule 2)
    show "owned_inv ?s'" by (rule 3)
    show "completedAt_inv (storage ?s')" using 4 by simp
  qed
qed

lemma sys_inv_initial: "sys_inv initial"
  by (simp add: sys_inv_def initial_def newMemStorage_def store_inv_def proc_inv_def
        owned_inv_def completedAt_inv_def)

lemma sys_inv_step: "sys_inv s \<Longrightarrow> sys_inv (step e s)"
  by (cases e) (simp_all only: sys_inv_upload sys_inv_cancel sys_inv_resume)

lemma sys_inv_run_from: "sys_inv s \<Longrightarrow> sys_inv (run events s)"
  unfolding run_def by (induction events arbitrary: s) (simp_all add: sys_inv_step)

lemma sys_inv_run: "sys_inv (run events initial)"
  by (rule sys_inv_run_from[OF sys_inv_initial])

section \<open>Evaluating the example runs\<close>

lemmas eval_defs = upload_route_def post_upload_def fileFilter_rejects_def fileSize_limit_def
  property_def createPdfJob_def createPdfFile_def updatePdfJob_def updatePdfFile_def
  processJob_start_def initial_def newMemStorage_def Let_def spreadJob_def spreadFile_def
  getPdfJob_def getPdfFile_def getPdfFilesByJobId_def catch_file_def catch_job_def
  processFile_progress_def processFile_result_def post_cancel_def
  endsWith_def toLowerCase_def toLowerChar_def

lemma funpow_numeral_unfold: "((f :: 'a \<Rightarrow> 'a) ^^ numeral k) x = (f ^^ pred_numeral k) (f x)"
  by (simp add: numeral_eq_Suc funpow_swap1)

lemma funpow_one_unfold: "((f :: 'a \<Rightarrow> 'a) ^^ 1) x = f x"
  by simp

lemmas run_defs = processJob_alone_def run_def funpow_numeral_unfold funpow_one_unfold
  generatePdfaFilename_def path_join_def path_basename_def outputDir_def
  ex_world_empty_def ex_world_fails_def ex_world_ok_def

lemmas ex_defs = ex_uploaded_def ex_row_def ex_job_def ex_options_def

lemma ex_step_upload: "step ex_upload initial = ex_uploaded"
  by (simp add: ex_upload_def ex_uploaded_def ex_file_def ex_row_def ex_job_def ex_options_def
        eval_defs)

lemma ex_run_upload: "run [ex_upload] initial = ex_uploaded"
  by (simp add: run_def ex_step_upload)

lemma ex_cancelled:
  "run [ex_upload, Cancel (Some 1)] initial =
     ex_uploaded\<lparr>storage :=
       \<lparr>jobs = [(1, ex_job\<lparr>job_status := Failed\<rparr>)],
        files = [(1, ex_row\<lparr>file_status := Failed, error := Some msg_cancelled_by_user\<rparr>)],
        jobCurrentId = 2, fileCurrentId = 2\<rparr>\<rparr>"
  by (simp add: run_def ex_step_upload)
     (simp add: ex_uploaded_def ex_row_def ex_job_def eval_defs)

lemma ex_full_run_job:
  "getPdfJob (storage (run ex_full_run initial)) 1 = Some ex_job_done"
  unfolding ex_full_run_def run_def replicate.simps numeral_eq_Suc pred_numeral_simps
  apply (simp only: fold.simps comp_def ex_step_upload)
  apply (simp add: ex_defs ex_job_done_def run_defs eval_defs)
  done

lemma ex_two_uploaded:
  "procs (run [ex_upload_two] initial) 1 = ForLoop [ex_row, ex_row2]"
  by (simp add: run_def ex_upload_two_def ex_file_def ex_row_def ex_row2_def eval_defs)

lemma ex_two_unsettled:
  "procs (processJob_alone 9 ex_world_first_unsettled 1 (run [ex_upload_two] initial)) 1 =
     InProcessFile ex_row ex_options [] [ex_row2]"
  "storage (processJob_alone 9 ex_world_first_unsettled 1 (run [ex_upload_two] initial)) =
     \<lparr>jobs = [(1, ex_job)],
      files = [(1, ex_row\<lparr>file_status := Processing, progress := Some 90\<rparr>), (2, ex_row2)],
      jobCurrentId = 2, fileCurrentId = 3\<rparr>"
  by (simp_all add: ex_upload_two_def ex_file_def ex_row2_def ex_defs run_defs eval_defs
        ex_world_first_unsettled_def)

section \<open>Cancellation\<close>

text \<open>
  C3. In every state the server can reach, cancelling a stored Job that is not in a
  terminal state answers 200, sets the Job to failed and sets every File of the Job
  that is not in a terminal state to failed with the error message "Trabalho cancelado
  pelo usuario" (cancelled by user), leaving every other File as it was; cancelling a
  Job that is completed or failed answers 400 and leaves the store as it was.
\<close>

theorem cancel_fails_job_and_open_files:
  assumes "st = storage (run events initial)" and "getPdfJob st j = Some job"
  shows "(\<not> terminal (job_status job) \<longrightarrow>
           (\<exists>st'. post_cancel st (Some j) = (\<lparr>code = 200, body = MessageBody msg_cancel_ok\<rparr>, st') \<and>
              getPdfJob st' j = Some (job\<lparr>job_status := Failed\<rparr>) \<and>
              (\<forall>k row. getPdfFile st k = Some row \<longrightarrow>
                 getPdfFile st' k =
                   Some (if jobId row = j \<and> \<not> terminal (file_status row)
                         then row\<lparr>file_status := Failed, error := Some msg_cancelled_by_user\<rparr>
                         else row)))) \<and>
         (terminal (job_status job) \<longrightarrow>
            post_cancel st (Some j) = (\<lparr>code = 400, body = ErrorBody msg_already_done\<rparr>, st))"
proof -
  have "store_inv st"
    using sys_inv_run[of events] assms(1) by (simp add: sys_inv_def)
  then show ?thesis using assms(2) by (rule post_cancel_effect)
qed

theorem cancel_fails_job_and_open_files_witness:
  "getPdfJob (storage (run [ex_upload] initial)) 1 = Some ex_job \<and>
   \<not> terminal (job_status ex_job) \<and>
   (\<exists>st'. post_cancel (storage (run [ex_upload] initial)) (Some 1) =
            (\<lparr>code = 200, body = MessageBody msg_cancel_ok\<rparr>, st') \<and>
          getPdfJob st' 1 = Some (ex_job\<lparr>job_status := Failed\<rparr>) \<and>
          getPdfFile st' 1 =
            Some (ex_row\<lparr>file_status := Failed, error := Some msg_cancelled_by_user\<rparr>)) \<and>
   getPdfJob (storage (run [ex_upload, Cancel (Some 1)] initial)) 1 =
     Some (ex_job\<lparr>job_status := Failed\<rparr>) \<and>
   terminal (job_status (ex_job\<lparr>job_status := Failed\<rparr>)) \<and>
   post_cancel (storage (run [ex_upload, Cancel (Some 1)] initial)) (Some 1) =
     (\<lparr>code = 400, body = ErrorBody msg_already_done\<rparr>,
      storage (run [ex_upload, Cancel (Some 1)] initial))"
proof -
  have h1: "getPdfJob (storage (run [ex_upload] initial)) 1 = Some ex_job"
    by (simp add: ex_run_upload ex_uploaded_def getPdfJob_def)
  have f1: "getPdfFile (storage (run [ex_upload] initial)) 1 = Some ex_row"
    by (simp add: ex_run_upload ex_uploaded_def getPdfFile_def)
  have n1: "\<not> terminal (job_status ex_job)" "jobId ex_row = 1"
    "\<not> terminal (file_status ex_row)"
    by (simp_all add: ex_job_def ex_row_def terminal_def)
  have h2: "getPdfJob (storage (run [ex_upload, Cancel (Some 1)] initial)) 1 =
     Some (ex_job\<lparr>job_status := Failed\<rparr>)"
    by (simp only: ex_cancelled) (simp add: ex_uploaded_def getPdfJob_def)
  have t2: "terminal (job_status (ex_job\<lparr>job_status := Failed\<rparr>))"
    by (simp add: terminal_def)
  from cancel_fails_job_and_open_files[OF refl h1] n1(1)
  obtain st' where st': "post_cancel (storage (run [ex_upload] initial)) (Some 1) =
            (\<lparr>code = 200, body = MessageBody msg_cancel_ok\<rparr>, st')"
    "getPdfJob st' 1 = Some (ex_job\<lparr>job_status := Failed\<rparr>)"
    "\<forall>k row. getPdfFile (storage (run [ex_upload] initial)) k = Some row \<longrightarrow>
                 getPdfFile st' k =
                   Some (if jobId row = 1 \<and> \<not> terminal (file_status row)
                         then row\<lparr>file_status := Failed, error := Some msg_cancelled_by_user\<rparr>
                         else row)"
    by blast
  from st'(3) f1 n1 have "getPdfFile st' 1 =
            Some (ex_row\<lparr>file_status := Failed, error := Some msg_cancelled_by_user\<rparr>)"
    by simp
  moreover from cancel_fails_job_and_open_files[OF refl h2] t2
  have "post_cancel (storage (run [ex_upload, Cancel (Some 1)] initial)) (Some 1) =
     (\<lparr>code = 400, body = ErrorBody msg_already_done\<rparr>,
      storage (run [ex_upload, Cancel (Some 1)] initial))"
    by blast
  ultimately show ?thesis using h1 n1(1) st'(1,2) h2 t2 by blast
qed

section \<open>Upload: what is rejected\<close>

lemma multer_array_checked:
  "multer_array incoming = Inr reqFiles \<Longrightarrow>
   \<forall>file \<in> set incoming. \<not> fileFilter_rejects file \<and> up_size file \<le> fileSize_limit"
  by (induction incoming arbitrary: reqFiles) (auto split: if_splits sum.splits)

text \<open>
  C7. An upload request with no files, with a file larger than the limit of 20 MB,
  with a file that fails the PDF-type check of the upload middleware, or with an
  options payload the schema rejects is answered with a 4xx status, and the server
  is left as it was: no Job (and no File) is created and no processing starts. (The
  handler answers 400 itself for no files and for bad options; a file the middleware
  rejects never reaches the handler, and the status of that answer is the error
  handler's, as the spec describes it.)
\<close>

theorem rejected_upload_creates_no_job:
  assumes "incoming = [] \<or>
           (\<exists>file \<in> set incoming. 20 * 1024 * 1024 < up_size file) \<or>
           (\<exists>file \<in> set incoming. fileFilter_rejects file) \<or>
           Option.bind optionsRaw conversionOptionsSchema_parse = None"
  shows "\<exists>r. upload_route s incoming optionsRaw now = (r, s) \<and> 400 \<le> code r \<and> code r < 500"
proof (cases "multer_array incoming")
  case (Inl e)
  then show ?thesis by (simp add: upload_route_def error_handler_def)
next
  case (Inr reqFiles)
  then have eq: "reqFiles = incoming" by (rule multer_array_accepts)
  have "\<forall>file \<in> set incoming. \<not> fileFilter_rejects file \<and> up_size file \<le> fileSize_limit"
    using Inr by (rule multer_array_checked)
  then have "incoming = [] \<or> Option.bind optionsRaw conversionOptionsSchema_parse = None"
    using assms by (auto simp: fileSize_limit_def)
  then show ?thesis
    using Inr eq by (auto simp: upload_route_def post_upload_def)
qed

theorem rejected_upload_creates_no_job_witness:
  "ex_big_file \<in> set [ex_file, ex_big_file] \<and> 20 * 1024 * 1024 < up_size ex_big_file \<and>
   (\<exists>r. upload_route ex_uploaded [ex_file, ex_big_file] (Some (JObj [])) 6 = (r, ex_uploaded) \<and>
        400 \<le> code r \<and> code r < 500)"
proof -
  have m: "ex_big_file \<in> set [ex_file, ex_big_file]" by simp
  have b: "20 * 1024 * 1024 < up_size ex_big_file" by (simp add: ex_big_file_def)
  from m b have h: "\<exists>file \<in> set [ex_file, ex_big_file]. 20 * 1024 * 1024 < up_size file"
    by (rule bexI[rotated])
  from rejected_upload_creates_no_job[of "[ex_file, ex_big_file]", OF disjI2, OF disjI1, OF h] m b
  show ?thesis by blast
qed

section \<open>Results\<close>

text \<open>
  C8 as stated fails: a File whose converted size is present but 0 is reported with
  its original size (\<open>a || b\<close> takes \<open>b\<close> for 0 and for the empty string). Here the
  conversion of the one uploaded file wrote an empty output.
\<close>

theorem results_size_counterexample:
  "map convertedSize
     (getPdfFilesByJobId (storage (processJob_alone 9 ex_world_empty 1 (run [ex_upload] initial))) 1)
     = [Some 0] \<and>
   get_results (storage (processJob_alone 9 ex_world_empty 1 (run [ex_upload] initial))) (Some 1) =
     \<lparr>code = 200,
      body = ResultsBody 1 Completed
               [\<lparr>rs_id = 1, rs_name = ''a_PDFA2u.pdf'', rs_size = 1000,
                 rs_url = ''/files/a_PDFA2u.pdf'', rs_hasPdfA = Some True,
                 rs_hasOcr = Some True\<rparr>]\<rparr>"
  by (simp only: ex_run_upload)
     (simp add: ex_defs run_defs eval_defs get_results_def result_entry_def or_number_def
        or_string_def)

text \<open>
  C8, amended. For a stored Job that is not completed the results request answers 400
  (not ready). For a completed Job it answers 200 with one entry per File of the Job,
  in order; the entry's name is the converted name when that is present and not
  empty, otherwise the original name, and its size is the converted size when that is
  present and not 0, otherwise the original size.
\<close>

theorem results_not_ready_or_converted_else_original:
  assumes "getPdfJob st j = Some job"
  shows "(job_status job \<noteq> Completed \<longrightarrow>
            get_results st (Some j) = \<lparr>code = 400, body = ErrorBody msg_not_ready\<rparr>) \<and>
         (job_status job = Completed \<longrightarrow>
            (\<exists>entries.
               get_results st (Some j) =
                 \<lparr>code = 200, body = ResultsBody (job_id job) Completed entries\<rparr> \<and>
               length entries = length (getPdfFilesByJobId st j) \<and>
               (\<forall>i < length entries.
                  rs_id (entries ! i) = file_id (getPdfFilesByJobId st j ! i) \<and>
                  rs_name (entries ! i) =
                    (case convertedName (getPdfFilesByJobId st j ! i) of
                       None \<Rightarrow> originalName (getPdfFilesByJobId st j ! i)
                     | Some n \<Rightarrow> if n = [] then originalName (getPdfFilesByJobId st j ! i) else n) \<and>
                  rs_size (entries ! i) =
                    (case convertedSize (getPdfFilesByJobId st j ! i) of
                       None \<Rightarrow> originalSize (getPdfFilesByJobId st j ! i)
                     | Some n \<Rightarrow> if n = 0 then originalSize (getPdfFilesByJobId st j ! i) else n))))"
  using assms
  by (auto simp: get_results_def result_entry_def or_number_def or_string_def)

theorem results_not_ready_or_converted_else_original_witness:
  "getPdfJob (storage (run [ex_upload] initial)) 1 = Some ex_job \<and>
   job_status ex_job \<noteq> Completed \<and>
   get_results (storage (run [ex_upload] initial)) (Some 1) =
     \<lparr>code = 400, body = ErrorBody msg_not_ready\<rparr>"
proof -
  have h: "getPdfJob (storage (run [ex_upload] initial)) 1 = Some ex_job"
    by (simp add: ex_run_upload ex_uploaded_def getPdfJob_def)
  have n: "job_status ex_job \<noteq> Completed" by (simp add: ex_job_def)
  from results_not_ready_or_converted_else_original[OF h] h n show ?thesis by blast
qed

section \<open>What one event leaves alone\<close>

lemma upload_frame:
  assumes si: "store_inv (storage s)"
  shows "(map_of (files (storage s)) k = Some f \<longrightarrow>
            map_of (files (storage (step (Upload incoming optionsRaw now) s))) k = Some f) \<and>
         (map_of (jobs (storage s)) j = Some job \<longrightarrow>
            map_of (jobs (storage (step (Upload incoming optionsRaw now) s))) j = Some job)"
proof (cases "\<exists>opts. multer_array incoming = Inr incoming \<and> incoming \<noteq> [] \<and>
                Option.bind optionsRaw conversionOptionsSchema_parse = Some opts")
  case False
  have "step (Upload incoming optionsRaw now) s = s"
  proof (cases "multer_array incoming")
    case (Inl e)
    then show ?thesis by (simp add: upload_route_def)
  next
    case (Inr reqFiles)
    then have "reqFiles = incoming" by (rule multer_array_accepts)
    with Inr False show ?thesis
      by (auto simp: upload_route_def post_upload_def split: option.splits)
  qed
  then show ?thesis by simp
next
  case True
  then obtain opts where acc: "multer_array incoming = Inr incoming" and ne: "incoming \<noteq> []"
    and po: "Option.bind optionsRaw conversionOptionsSchema_parse = Some opts"
    by blast
  let ?st = "storage s"
  let ?jn = "jobCurrentId ?st"
  define job0 where "job0 = \<lparr>job_id = ?jn, job_status = Pending, createdAt = now,
                    completedAt = None, options = opts\<rparr>"
  define st1 where "st1 = ?st\<lparr>jobs := AList.update ?jn job0 (jobs ?st), jobCurrentId := ?jn + 1\<rparr>"
  have cj: "createPdfJob ?st \<lparr>ins_job_status = Pending, ins_options = opts\<rparr> now = (job0, st1)"
    by (simp add: createPdfJob_def Let_def job0_def st1_def)
  obtain rows st2 where cf: "createFiles st1 ?jn incoming = (rows, st2)"
    by fastforce
  have below1: "\<forall>k f. map_of (files st1) k = Some f \<longrightarrow> k < fileCurrentId st1"
    using si by (auto simp: store_inv_def st1_def)
  have d1: "distinct (map fst (files st1))"
    using si by (simp add: store_inv_def st1_def)
  note E = createFiles_effect[OF cf below1 d1]
  have st1s: "files st1 = files ?st" "fileCurrentId st1 = fileCurrentId ?st"
    "jobs st1 = AList.update ?jn job0 (jobs ?st)"
    by (simp_all add: st1_def)
  have J2: "map_of (jobs st2) ?jn = Some job0"
    using E by (simp add: st1s update_conv')
  define st3 where "st3 = st2\<lparr>jobs := AList.update ?jn (job0\<lparr>job_status := Processing\<rparr>) (jobs st2)\<rparr>"
  have ps: "processJob_start ?jn rows st2 = (ForLoop rows, st3)"
    using J2 by (simp add: processJob_start_def updatePdfJob_found spreadJob_def st3_def)
  have s': "storage (step (Upload incoming optionsRaw now) s) = st3"
    using acc ne po cj cf ps by (simp add: upload_route_def post_upload_def job0_def)
  have J3: "map_of (jobs st3) i =
      (if i = ?jn then Some (job0\<lparr>job_status := Processing\<rparr>) else map_of (jobs ?st) i)" for i
    using E by (simp add: st3_def st1s update_conv')
  have a: "map_of (files st3) k = Some f" if "map_of (files ?st) k = Some f"
  proof -
    have "k < fileCurrentId ?st" using si that by (auto simp: store_inv_def)
    then show ?thesis using E that by (simp add: st3_def st1s)
  qed
  have b: "map_of (jobs st3) j = Some job" if "map_of (jobs ?st) j = Some job"
  proof -
    have "j < ?jn" using si that unfolding store_inv_def by blast
    then show ?thesis using that by (simp add: J3)
  qed
  show ?thesis unfolding s' using a b by blast
qed

lemma cancel_frame:
  assumes inv: "sys_inv s"
  shows "(map_of (files (storage s)) k = Some f \<longrightarrow>
            (\<exists>f'. map_of (files (storage (step (Cancel b) s))) k = Some f' \<and>
                  progress f' = progress f)) \<and>
         (map_of (jobs (storage s)) j = Some job \<longrightarrow>
            (\<exists>job'. map_of (jobs (storage (step (Cancel b) s))) j = Some job' \<and>
                    (terminal (job_status job) \<longrightarrow> job' = job)))"
proof -
  have si: "store_inv (storage s)" using inv by (simp add: sys_inv_def)
  from post_cancel_cases[OF si, of b]
  show ?thesis
  proof
    assume "snd (post_cancel (storage s) b) = storage s"
    then show ?thesis by simp
  next
    assume "\<exists>j job st'. b = Some j \<and> map_of (jobs (storage s)) j = Some job \<and> \<not> terminal (job_status job) \<and>
       post_cancel (storage s) b = (\<lparr>code = 200, body = MessageBody msg_cancel_ok\<rparr>, st') \<and>
       jobs st' = AList.update j (job\<lparr>job_status := Failed\<rparr>) (jobs (storage s)) \<and>
       jobCurrentId st' = jobCurrentId (storage s) \<and> fileCurrentId st' = fileCurrentId (storage s) \<and>
       map fst (files st') = map fst (files (storage s)) \<and>
       (\<forall>k. map_of (files st') k =
          (case map_of (files (storage s)) k of
             None \<Rightarrow> None
           | Some f \<Rightarrow>
               Some (if jobId f = j \<and> \<not> terminal (file_status f)
                     then f\<lparr>file_status := Failed, error := Some msg_cancelled_by_user\<rparr>
                     else f)))"
    then obtain jc jobc st' where
      jobc: "map_of (jobs (storage s)) jc = Some jobc" "\<not> terminal (job_status jobc)"
      and pc: "post_cancel (storage s) b = (\<lparr>code = 200, body = MessageBody msg_cancel_ok\<rparr>, st')"
      and Jl: "jobs st' = AList.update jc (jobc\<lparr>job_status := Failed\<rparr>) (jobs (storage s))"
      and Fl: "\<forall>k. map_of (files st') k =
          (case map_of (files (storage s)) k of
             None \<Rightarrow> None
           | Some f \<Rightarrow>
               Some (if jobId f = jc \<and> \<not> terminal (file_status f)
                     then f\<lparr>file_status := Failed, error := Some msg_cancelled_by_user\<rparr>
                     else f))"
      by blast
    have s': "storage (step (Cancel b) s) = st'" using pc by simp
    have a: "\<exists>f'. map_of (files st') k = Some f' \<and> progress f' = progress f"
      if "map_of (files (storage s)) k = Some f"
      using Fl[rule_format, of k] that by simp
    have b: "\<exists>job'. map_of (jobs st') j = Some job' \<and> (terminal (job_status job) \<longrightarrow> job' = job)"
      if "map_of (jobs (storage s)) j = Some job"
      using that jobc by (auto simp: Jl update_conv')
    show ?thesis unfolding s' using a b by blast
  qed
qed

lemma resume_frame:
  assumes inv: "sys_inv s"
  shows "(map_of (files (storage s)) k = Some f \<longrightarrow>
            (\<exists>f'. map_of (files (storage (step (Resume i now world) s))) k = Some f' \<and>
                  percentage f \<le> percentage f')) \<and>
         (map_of (jobs (storage s)) j = Some job \<longrightarrow>
            (\<exists>job'. map_of (jobs (storage (step (Resume i now world) s))) j = Some job' \<and>
                    (job_status job = Completed \<longrightarrow> job' = job)))"
proof -
  obtain pc' st' where res: "resume now world i (procs s i) (storage s) = (pc', st')"
    by (cases "resume now world i (procs s i) (storage s)")
  have s': "storage (step (Resume i now world) s) = st'"
    using res by simp
  from resume_summary[OF inv refl res]
  consider
    (idle) "st' = storage s"
  | (rollup) jobr where "procs s i = ForLoop []"
      "map_of (jobs (storage s)) i = Some jobr"
      "st' = (storage s)\<lparr>jobs := AList.update i
          (jobr\<lparr>job_status := Completed, completedAt := Some now\<rparr>) (jobs (storage s))\<rparr>"
  | (upd) g :: PdfFile and fg f' where
      "map_of (files (storage s)) (file_id g) = Some fg"
      "st' = (storage s)\<lparr>files := AList.update (file_id g) f' (files (storage s))\<rparr>"
      "percentage fg \<le> percentage f'"
    by blast
  then show ?thesis
  proof cases
    case idle
    then show ?thesis unfolding s' by simp
  next
    case rollup
    have "job_status jobr \<noteq> Completed"
      using proc_invD(1)[OF inv refl, of i] rollup(1,2) by auto
    then show ?thesis
      unfolding s' rollup(3) using rollup(2) by (auto simp: update_conv')
  next
    case upd
    then show ?thesis
      unfolding s' upd(2) by (auto simp: update_conv')
  qed
qed

lemma step_frame:
  assumes inv: "sys_inv s"
  shows "(map_of (files (storage s)) k = Some f \<longrightarrow>
            (\<exists>f'. map_of (files (storage (step e s))) k = Some f' \<and>
                  percentage f \<le> percentage f')) \<and>
         (map_of (jobs (storage s)) j = Some job \<longrightarrow>
            (\<exists>job'. map_of (jobs (storage (step e s))) j = Some job' \<and>
                    (job_status job = Completed \<longrightarrow> job' = job)))"
proof (cases e)
  case (Upload incoming optionsRaw now)
  have "store_inv (storage s)" using inv by (simp add: sys_inv_def)
  from upload_frame[OF this, of k f incoming optionsRaw now j job]
  show ?thesis unfolding Upload by auto
next
  case (Cancel b)
  from cancel_frame[OF inv, of k f b j job]
  show ?thesis unfolding Cancel by (auto simp: percentage_def terminal_def)
next
  case (Resume i now world)
  from resume_frame[OF inv, of k f i now world j job]
  show ?thesis unfolding Resume by simp
qed

lemma run_frame:
  assumes inv: "sys_inv s"
  shows "(map_of (files (storage s)) k = Some f \<longrightarrow>
            (\<exists>f'. map_of (files (storage (run later s))) k = Some f' \<and>
                  percentage f \<le> percentage f')) \<and>
         (map_of (jobs (storage s)) j = Some job \<longrightarrow>
            (\<exists>job'. map_of (jobs (storage (run later s))) j = Some job' \<and>
                    (job_status job = Completed \<longrightarrow> job' = job)))"
  using inv
proof (induction later arbitrary: s f job)
  case Nil
  then show ?case by (simp add: run_def)
next
  case (Cons e later)
  have r: "run (e # later) s = run later (step e s)" by (simp add: run_def)
  have inv': "sys_inv (step e s)" using Cons.prems by (rule sys_inv_step)
  show ?case
  proof (intro conjI impI)
    assume "map_of (files (storage s)) k = Some f"
    with step_frame[OF Cons.prems, of k f e] obtain f1 where
      f1: "map_of (files (storage (step e s))) k = Some f1" "percentage f \<le> percentage f1"
      by blast
    with Cons.IH[OF inv', of f1] obtain f' where
      "map_of (files (storage (run later (step e s)))) k = Some f'" "percentage f1 \<le> percentage f'"
      by blast
    with f1 show "\<exists>f'. map_of (files (storage (run (e # later) s))) k = Some f' \<and>
                  percentage f \<le> percentage f'"
      unfolding r by (meson le_trans)
  next
    assume "map_of (jobs (storage s)) j = Some job"
    with step_frame[OF Cons.prems, of _ _ e j job] obtain job1 where
      j1: "map_of (jobs (storage (step e s))) j = Some job1"
          "job_status job = Completed \<longrightarrow> job1 = job"
      by blast
    with Cons.IH[OF inv', of _ job1] obtain job' where
      "map_of (jobs (storage (run later (step e s)))) j = Some job'"
      "job_status job1 = Completed \<longrightarrow> job' = job1"
      by blast
    with j1 show "\<exists>job'. map_of (jobs (storage (run (e # later) s))) j = Some job' \<and>
                    (job_status job = Completed \<longrightarrow> job' = job)"
      unfolding r by auto
  qed
qed

section \<open>completedAt\<close>

text \<open>
  C4 as stated fails: a Job cancelled while its file is being converted is failed and
  has no \<open>completedAt\<close> (the cancel handler and the catch-all of \<open>processJob\<close> set
  only the status).
\<close>

theorem cancelled_job_without_completedAt_counterexample:
  "getPdfJob (storage (run ex_cancel_run initial)) 1 =
     Some \<lparr>job_id = 1, job_status = Failed, createdAt = 5, completedAt = None,
           options = ex_options\<rparr>"
  unfolding ex_cancel_run_def run_def
  by (simp only: fold.simps comp_def ex_step_upload)
     (simp add: ex_defs run_defs eval_defs)

text \<open>
  C4, amended. In every state the server can reach, a Job has \<open>completedAt\<close> set if
  and only if its status is completed (a failed Job has none), and once it is set
  the Job record, \<open>completedAt\<close> included, is never changed again by any later
  upload, cancel request or stretch of processing.
\<close>

theorem completedAt_iff_completed_and_kept:
  assumes "s = run events initial" and "getPdfJob (storage s) j = Some job"
  shows "(completedAt job \<noteq> None \<longleftrightarrow> job_status job = Completed) \<and>
         (completedAt job \<noteq> None \<longrightarrow> getPdfJob (storage (run later s)) j = Some job)"
proof -
  have inv: "sys_inv s" using assms(1) sys_inv_run by simp
  have jj: "map_of (jobs (storage s)) j = Some job"
    using assms(2) by (simp add: getPdfJob_def)
  have iff: "completedAt job \<noteq> None \<longleftrightarrow> job_status job = Completed"
    using inv jj unfolding sys_inv_def completedAt_inv_def by blast
  from run_frame[OF inv, of _ _ later j job] jj obtain job' where
    "map_of (jobs (storage (run later s))) j = Some job'"
    "job_status job = Completed \<longrightarrow> job' = job"
    by blast
  then have "completedAt job \<noteq> None \<longrightarrow> getPdfJob (storage (run later s)) j = Some job"
    using iff by (auto simp: getPdfJob_def)
  with iff show ?thesis by blast
qed

theorem completedAt_iff_completed_and_kept_witness:
  "getPdfJob (storage (run ex_full_run initial)) 1 = Some ex_job_done \<and>
   completedAt ex_job_done \<noteq> None \<and> job_status ex_job_done = Completed \<and>
   getPdfJob (storage (run [Cancel (Some 1), Resume 1 20 ex_world_fails]
                         (run ex_full_run initial))) 1 = Some ex_job_done"
proof -
  have c: "completedAt ex_job_done \<noteq> None" "job_status ex_job_done = Completed"
    by (simp_all add: ex_job_done_def)
  from completedAt_iff_completed_and_kept[OF refl ex_full_run_job,
         of "[Cancel (Some 1), Resume 1 20 ex_world_fails]"] c ex_full_run_job
  show ?thesis by blast
qed

section \<open>Progress\<close>

text \<open>
  C5 as stated fails for the progress endpoint of the legacy API: while a job is
  processing it answers with a random percentage, here 55 and then 10 on two
  successive polls.
\<close>

theorem random_progress_counterexample:
  "get_job_progress ex_legacy_jobs (Some 1) (1 / 2) =
     Inr \<lparr>pb_jobId = 1, pb_status = Processing, pb_progress = 55,
          pb_stage = ''Aplicando OCR...'', pb_outputUrl = None, pb_errorMessage = None\<rparr> \<and>
   get_job_progress ex_legacy_jobs (Some 1) 0 =
     Inr \<lparr>pb_jobId = 1, pb_status = Processing, pb_progress = 10,
          pb_stage = ''Analisando documento...'', pb_outputUrl = None, pb_errorMessage = None\<rparr>"
  by (simp add: get_job_progress_def ex_legacy_jobs_def progress_of_status_def Let_def)

text \<open>
  C5, amended. For every File, the percentage that the status endpoint
  (GET /api/pdf/status/:jobId) reports for it never decreases from one poll to a later
  one, whatever uploads, cancel requests and stretches of processing happen in
  between (the File stays in the store, and the bound holds before and after it
  reaches a terminal state). The progress endpoint of the legacy API is not covered:
  it reports a random percentage while the job is processing.
\<close>

theorem status_percentage_never_decreases:
  assumes "s = run events initial" and "getPdfFile (storage s) k = Some row"
  shows "\<exists>row'. getPdfFile (storage (run later s)) k = Some row' \<and>
           st_percentage (status_entry row) \<le> st_percentage (status_entry row')"
proof -
  have inv: "sys_inv s" using assms(1) sys_inv_run by simp
  have "map_of (files (storage s)) k = Some row"
    using assms(2) by (simp add: getPdfFile_def)
  with run_frame[OF inv, of k row later] obtain row' where
    "map_of (files (storage (run later s))) k = Some row'" "percentage row \<le> percentage row'"
    by blast
  then show ?thesis
    by (auto simp: getPdfFile_def status_entry_def percentage_def)
qed

theorem status_percentage_never_decreases_witness:
  "getPdfFile (storage (run [ex_upload] initial)) 1 = Some ex_row \<and>
   (\<exists>row'. getPdfFile (storage (run [Resume 1 6 ex_world_ok, Resume 1 6 ex_world_ok]
                                  (run [ex_upload] initial))) 1 = Some row' \<and>
          st_percentage (status_entry ex_row) \<le> st_percentage (status_entry row'))"
proof -
  have h: "getPdfFile (storage (run [ex_upload] initial)) 1 = Some ex_row"
    by (simp add: ex_run_upload ex_uploaded_def getPdfFile_def)
  from status_percentage_never_decreases[OF refl h,
         of "[Resume 1 6 ex_world_ok, Resume 1 6 ex_world_ok]"] h
  show ?thesis by blast
qed

section \<open>processJob left alone\<close>

lemma resume_decreases:
  assumes "pc \<noteq> Finished"
    and "\<forall>g \<in> set (pc_files pc). world (file_id g) \<noteq> NeverSettles"
  shows "pc_size (fst (resume now world j pc st)) < pc_size pc"
proof (cases pc)
  case Finished
  with assms(1) show ?thesis by simp
next
  case (ForLoop fs)
  then show ?thesis
    by (cases fs)
       (auto simp: catch_file_def catch_job_def processFile_progress_def Let_def
             split: prod.splits sum.splits option.splits)
next
  case (InProcessFile g opts ps rest)
  show ?thesis
  proof (cases ps)
    case Nil
    have "world (file_id g) \<noteq> NeverSettles" using assms(2) InProcessFile by simp
    then show ?thesis
      using InProcessFile Nil
      by (cases "world (file_id g)")
         (auto simp: processFile_result_def catch_file_def catch_job_def Let_def
               split: prod.splits sum.splits option.splits)
  next
    case (Cons p ps')
    with InProcessFile show ?thesis
      by (auto simp: catch_file_def catch_job_def Let_def
               split: prod.splits sum.splits option.splits)
  qed
qed

lemma resume_files_subset:
  "set (pc_files (fst (resume now world j pc st))) \<subseteq> set (pc_files pc)"
proof (cases pc)
  case Finished
  then show ?thesis by simp
next
  case (ForLoop fs)
  then show ?thesis
    by (cases fs)
       (auto simp: catch_file_def catch_job_def Let_def
             split: prod.splits sum.splits option.splits)
next
  case (InProcessFile g opts ps rest)
  then show ?thesis
    by (cases ps)
       (auto simp: catch_file_def catch_job_def Let_def
             split: prod.splits sum.splits option.splits)
qed

lemma step_resume_size:
  "procs s j \<noteq> Finished \<Longrightarrow>
   \<forall>g \<in> set (pc_files (procs s j)). world (file_id g) \<noteq> NeverSettles \<Longrightarrow>
   pc_size (procs (step (Resume j now world) s) j) < pc_size (procs s j)"
  using resume_decreases[where pc = "procs s j" and world = world and now = now and j = j
                           and st = "storage s"]
  by (auto split: prod.splits)

lemma step_resume_files:
  "set (pc_files (procs (step (Resume j now world) s) j)) \<subseteq> set (pc_files (procs s j))"
  using resume_files_subset[of now world j "procs s j" "storage s"]
  by (auto split: prod.splits)

lemma step_resume_idle:
  "procs s j = Finished \<Longrightarrow> step (Resume j now world) s = s"
proof -
  assume f: "procs s j = Finished"
  then have "(procs s)(j := Finished) = procs s" by auto
  with f show ?thesis by simp
qed

text \<open>
  Inside a \<open>processFile\<close> that never settles, a stretch of \<open>processJob\<close> changes
  nothing, and so does any number of them.
\<close>

lemma step_resume_unsettled:
  assumes "procs s j = InProcessFile g opts [] rest" and "world (file_id g) = NeverSettles"
  shows "step (Resume j now world) s = s"
proof -
  have "(procs s)(j := InProcessFile g opts [] rest) = procs s" using assms(1) by auto
  with assms show ?thesis by (simp add: processFile_result_def Let_def)
qed

lemma pc_size_zero: "pc_size pc = 0 \<longleftrightarrow> pc = Finished"
  by (cases pc) auto

lemma funpow_Suc_apply: "((f :: 'a \<Rightarrow> 'a) ^^ Suc n) x = (f ^^ n) (f x)"
  by (simp add: funpow_swap1)

lemma alone_unsettled:
  assumes "procs s j = InProcessFile g opts [] rest" and "world (file_id g) = NeverSettles"
  shows "(step (Resume j now world) ^^ n) s = s"
proof (induction n)
  case 0
  show ?case by simp
next
  case (Suc n)
  show ?case
    by (simp only: funpow_Suc_apply Suc
          step_resume_unsettled[where world = world and g = g, OF assms])
qed

lemma alone_as_run: "(step e ^^ n) s = run (replicate n e) s"
proof (induction n arbitrary: s)
  case 0
  show ?case by (simp add: run_def)
next
  case (Suc n)
  have "run (replicate (Suc n) e) s = run (replicate n e) (step e s)"
    by (simp add: run_def)
  with Suc[of "step e s"] show ?case by (simp only: funpow_Suc_apply)
qed

text \<open>If the conversions of the files still ahead settle, the invocation returns.\<close>

lemma alone_finishes:
  "\<forall>g \<in> set (pc_files (procs s j)). world (file_id g) \<noteq> NeverSettles \<Longrightarrow>
   pc_size (procs s j) \<le> n \<Longrightarrow>
   procs ((step (Resume j now world) ^^ n) s) j = Finished"
proof (induction n arbitrary: s)
  case 0
  then show ?case by (simp add: pc_size_zero)
next
  case (Suc n)
  let ?s1 = "step (Resume j now world) s"
  have settle1: "\<forall>g \<in> set (pc_files (procs ?s1 j)). world (file_id g) \<noteq> NeverSettles"
    using Suc.prems(1) step_resume_files[of j now world s] by blast
  have "pc_size (procs ?s1 j) \<le> n"
  proof (cases "procs s j = Finished")
    case True
    then show ?thesis by (simp add: step_resume_idle)
  next
    case False
    from step_resume_size[OF this Suc.prems(1), of now] Suc.prems(2) show ?thesis by simp
  qed
  from Suc.IH[OF settle1 this] show ?case by (simp only: funpow_Suc_apply)
qed

text \<open>One stretch: which rows stay ahead, which file it touches, what it decides.\<close>

lemma resume_step:
  assumes inv: "sys_inv s"
  shows "set (pc_files (procs (step (Resume j now world) s) j)) \<subseteq> set (pc_files (procs s j))"
    and "k \<notin> file_id ` set (pc_files (procs s j)) \<Longrightarrow>
           map_of (files (storage (step (Resume j now world) s))) k = map_of (files (storage s)) k"
    and "pc_files (procs s j) = g0 # rest \<Longrightarrow>
         map_of (files (storage s)) (file_id g0) = Some f0 \<Longrightarrow>
           pc_files (procs (step (Resume j now world) s) j) = g0 # rest \<and>
           (\<exists>f. map_of (files (storage (step (Resume j now world) s))) (file_id g0) = Some f \<and>
                error f = error f0) \<or>
           pc_files (procs (step (Resume j now world) s) j) = rest \<and>
           (\<exists>f. map_of (files (storage (step (Resume j now world) s))) (file_id g0) = Some f \<and>
                (if world (file_id g0) = FsThrows
                 then file_status f = Failed \<and> error f = Some msg_process_failed
                 else file_status f = Completed \<and> error f = error f0))"
    and "pc_files (procs s j) = g0 # rest \<Longrightarrow> k \<noteq> file_id g0 \<Longrightarrow>
           map_of (files (storage (step (Resume j now world) s))) k = map_of (files (storage s)) k"
proof -
  obtain pc' st' where res: "resume now world j (procs s j) (storage s) = (pc', st')"
    by (cases "resume now world j (procs s j) (storage s)")
  have s': "storage (step (Resume j now world) s) = st'" "procs (step (Resume j now world) s) j = pc'"
    using res by simp_all
  from resume_summary[OF inv refl res]
  consider
    (idle) "pc' = procs s j" "st' = storage s"
  | (rollup) "procs s j = ForLoop []" "pc' = Finished" "files st' = files (storage s)"
  | (same) g :: PdfFile and rs f f' where "pc_files (procs s j) = g # rs"
      "map_of (files (storage s)) (file_id g) = Some f"
      "st' = (storage s)\<lparr>files := AList.update (file_id g) f' (files (storage s))\<rparr>"
      "pc_files pc' = g # rs" "error f' = error f"
  | (decided) g :: PdfFile and rs f f' where "pc_files (procs s j) = g # rs"
      "map_of (files (storage s)) (file_id g) = Some f"
      "st' = (storage s)\<lparr>files := AList.update (file_id g) f' (files (storage s))\<rparr>"
      "pc_files pc' = rs"
      "if world (file_id g) = FsThrows
       then file_status f' = Failed \<and> error f' = Some msg_process_failed
       else file_status f' = Completed \<and> error f' = error f"
    by (elim disjE exE conjE) (auto split: if_splits)
  note cases = this
  show "set (pc_files (procs (step (Resume j now world) s) j)) \<subseteq> set (pc_files (procs s j))"
    unfolding s' by (cases rule: cases) auto
  show "map_of (files (storage (step (Resume j now world) s))) k = map_of (files (storage s)) k"
    if "k \<notin> file_id ` set (pc_files (procs s j))"
    unfolding s' using that by (cases rule: cases) (auto simp: update_conv')
  show "pc_files (procs (step (Resume j now world) s) j) = g0 # rest \<and>
           (\<exists>f. map_of (files (storage (step (Resume j now world) s))) (file_id g0) = Some f \<and>
                error f = error f0) \<or>
           pc_files (procs (step (Resume j now world) s) j) = rest \<and>
           (\<exists>f. map_of (files (storage (step (Resume j now world) s))) (file_id g0) = Some f \<and>
                (if world (file_id g0) = FsThrows
                 then file_status f = Failed \<and> error f = Some msg_process_failed
                 else file_status f = Completed \<and> error f = error f0))"
    if "pc_files (procs s j) = g0 # rest" "map_of (files (storage s)) (file_id g0) = Some f0"
    unfolding s' using that by (cases rule: cases) (auto simp: update_conv')
  show "map_of (files (storage (step (Resume j now world) s))) k = map_of (files (storage s)) k"
    if "pc_files (procs s j) = g0 # rest" "k \<noteq> file_id g0"
    unfolding s' using that by (cases rule: cases) (auto simp: update_conv')
qed

lemma alone_untouched:
  assumes "sys_inv s" and "k \<notin> file_id ` set (pc_files (procs s j))"
  shows "map_of (files (storage ((step (Resume j now world) ^^ n) s))) k =
         map_of (files (storage s)) k"
  using assms
proof (induction n arbitrary: s)
  case 0
  then show ?case by simp
next
  case (Suc n)
  let ?s1 = "step (Resume j now world) s"
  have inv1: "sys_inv ?s1" using Suc.prems(1) by (rule sys_inv_step)
  have "k \<notin> file_id ` set (pc_files (procs ?s1 j))"
    using resume_step(1)[OF Suc.prems(1), of j now world] Suc.prems(2) by auto
  from Suc.IH[OF inv1 this] resume_step(2)[OF Suc.prems(1) Suc.prems(2), of now world]
  show ?case by (simp only: funpow_Suc_apply)
qed

text \<open>
  Where the conversions of the files still ahead settle, each of these files ends in
  the state its own conversion decides: failed, with the message of the error
  \<open>processFile\<close> throws, if its conversion throws; completed, with the \<open>error\<close> it had
  before, otherwise.
\<close>

lemma alone_outcome:
  assumes "sys_inv s" and "g \<in> set (pc_files (procs s j))"
    and "\<forall>h \<in> set (pc_files (procs s j)). world (file_id h) \<noteq> NeverSettles"
    and "pc_size (procs s j) \<le> n"
    and "map_of (files (storage s)) (file_id g) = Some f0"
  shows "\<exists>f. map_of (files (storage ((step (Resume j now world) ^^ n) s))) (file_id g) = Some f \<and>
             (if world (file_id g) = FsThrows
              then file_status f = Failed \<and> error f = Some msg_process_failed
              else file_status f = Completed \<and> error f = error f0)"
  using assms
proof (induction n arbitrary: s f0)
  case 0
  then have "procs s j = Finished" by (simp add: pc_size_zero)
  with "0.prems"(2) show ?case by simp
next
  case (Suc n)
  let ?s1 = "step (Resume j now world) s"
  have inv1: "sys_inv ?s1" using Suc.prems(1) by (rule sys_inv_step)
  have nf: "procs s j \<noteq> Finished" using Suc.prems(2) by auto
  have settle1: "\<forall>h \<in> set (pc_files (procs ?s1 j)). world (file_id h) \<noteq> NeverSettles"
    using Suc.prems(3) step_resume_files[of j now world s] by blast
  have size1: "pc_size (procs ?s1 j) \<le> n"
    using step_resume_size[OF nf Suc.prems(3), of now] Suc.prems(4) by simp
  obtain g0 rest where pcf: "pc_files (procs s j) = g0 # rest"
    using Suc.prems(2) by (cases "pc_files (procs s j)") auto
  have d: "distinct (map file_id (g0 # rest))"
    using proc_invD(2)[OF Suc.prems(1) refl, of j] pcf by simp
  have unf: "(step (Resume j now world) ^^ Suc n) s = (step (Resume j now world) ^^ n) ?s1"
    by (rule funpow_Suc_apply)
  show ?case
  proof (cases "g \<in> set (pc_files (procs ?s1 j))")
    case True
    have "\<exists>f1. map_of (files (storage ?s1)) (file_id g) = Some f1 \<and> error f1 = error f0"
    proof (cases "file_id g = file_id g0")
      case same: True
      have "g \<notin> set rest" using d same by (auto simp: image_iff)
      then have "pc_files (procs ?s1 j) \<noteq> rest" using True by auto
      with resume_step(3)[OF Suc.prems(1) pcf, of f0 now world] Suc.prems(5) same
      show ?thesis by auto
    next
      case other: False
      from resume_step(4)[OF Suc.prems(1) pcf other, of now world] Suc.prems(5)
      show ?thesis by simp
    qed
    then obtain f1 where f1: "map_of (files (storage ?s1)) (file_id g) = Some f1"
      "error f1 = error f0" by blast
    from Suc.IH[OF inv1 True settle1 size1 f1(1), unfolded f1(2)]
    show ?thesis unfolding unf .
  next
    case False
    have gg: "g = g0"
    proof (rule ccontr)
      assume "g \<noteq> g0"
      then have "g \<in> set rest" using Suc.prems(2) pcf by simp
      moreover have "file_id g \<noteq> file_id g0"
        using d \<open>g \<in> set rest\<close> by (auto simp: image_iff)
      moreover have "pc_files (procs ?s1 j) = g0 # rest \<or> pc_files (procs ?s1 j) = rest"
      proof -
        from proc_invD(3)[OF Suc.prems(1) refl, of g0 j] pcf obtain fg where
          "map_of (files (storage s)) (file_id g0) = Some fg" by auto
        from resume_step(3)[OF Suc.prems(1) pcf this, of now world] show ?thesis by blast
      qed
      ultimately show False using False by auto
    qed
    from resume_step(3)[OF Suc.prems(1) pcf, of f0 now world] Suc.prems(5) False gg
    obtain f where f: "pc_files (procs ?s1 j) = rest"
      "map_of (files (storage ?s1)) (file_id g0) = Some f"
      "if world (file_id g0) = FsThrows
                 then file_status f = Failed \<and> error f = Some msg_process_failed
                 else file_status f = Completed \<and> error f = error f0"
      by auto
    have "file_id g0 \<notin> file_id ` set (pc_files (procs ?s1 j))"
      using d f(1) by auto
    from alone_untouched[OF inv1 this, where now = now and world = world and n = n] f gg
    show ?thesis unfolding unf by auto
  qed
qed

section \<open>The status of a job when its files are done\<close>

text \<open>
  C1 as stated fails: the conversion of the only File of a Job fails, the File is
  failed, and \<open>processJob\<close> ends with the Job completed, not failed.
\<close>

theorem failed_file_completed_job_counterexample:
  "map file_status
     (getPdfFilesByJobId (storage (processJob_alone 9 ex_world_fails 1 (run [ex_upload] initial))) 1)
     = [Failed] \<and>
   map_option job_status
     (getPdfJob (storage (processJob_alone 9 ex_world_fails 1 (run [ex_upload] initial))) 1)
     = Some Completed \<and>
   procs (processJob_alone 9 ex_world_fails 1 (run [ex_upload] initial)) 1 = Finished"
  by (simp only: ex_run_upload) (simp add: ex_defs run_defs eval_defs)

lemma returned_files_terminal:
  assumes inv: "sys_inv s" and fin: "procs s j = Finished"
  shows "\<forall>row \<in> set (getPdfFilesByJobId (storage s) j). terminal (file_status row)"
proof
  fix row assume r: "row \<in> set (getPdfFilesByJobId (storage s) j)"
  have si: "store_inv (storage s)" and oi: "owned_inv s"
    using inv by (auto simp: sys_inv_def)
  have m: "map_of (files (storage s)) (file_id row) = Some row"
    using snapshot_facts(2)[OF si, of j] r by blast
  have "jobId row = j" using r by (simp add: getPdfFilesByJobId_def)
  then show "terminal (file_status row)"
    using oi m fin unfolding owned_inv_def by fastforce
qed

text \<open>
  C1, amended. In every state the server can reach: a Job that is completed has had
  its \<open>processJob\<close> invocation return, and every one of its Files is in a terminal
  state (completed or failed); and for a Job that is processing, \<open>processJob\<close> run on
  returns if the conversions of the Files it still has ahead settle, and when it has
  returned the Job is completed, with every one of its Files in a terminal state,
  whether or not any of them failed. (A failed File does not make the Job failed.)
\<close>

theorem job_completed_after_files_terminal:
  assumes "s = run events initial" and "getPdfJob (storage s) j = Some job"
  shows "(job_status job = Completed \<longrightarrow>
            procs s j = Finished \<and>
            (\<forall>row \<in> set (getPdfFilesByJobId (storage s) j). terminal (file_status row))) \<and>
         (job_status job = Processing \<longrightarrow>
            ((\<forall>g \<in> set (pc_files (procs s j)). world (file_id g) \<noteq> NeverSettles) \<longrightarrow>
               procs (processJob_alone now world j s) j = Finished) \<and>
            (procs (processJob_alone now world j s) j = Finished \<longrightarrow>
               (\<exists>job'. getPdfJob (storage (processJob_alone now world j s)) j = Some job' \<and>
                       job_status job' = Completed) \<and>
               (\<forall>row \<in> set (getPdfFilesByJobId (storage (processJob_alone now world j s)) j).
                  terminal (file_status row))))"
proof -
  have inv: "sys_inv s" using assms(1) sys_inv_run by simp
  have pi: "proc_inv s j" using inv by (simp add: sys_inv_def)
  have jj: "map_of (jobs (storage s)) j = Some job"
    using assms(2) by (simp add: getPdfJob_def)
  have 1: "procs s j = Finished" if "job_status job = Completed"
    using pi jj that unfolding proc_inv_def by auto
  have 2: "\<forall>row \<in> set (getPdfFilesByJobId (storage s) j). terminal (file_status row)"
    if "job_status job = Completed"
    using returned_files_terminal[OF inv 1[OF that]] .
  let ?s' = "processJob_alone now world j s"
  have 3: "procs ?s' j = Finished"
    if "\<forall>g \<in> set (pc_files (procs s j)). world (file_id g) \<noteq> NeverSettles"
    unfolding processJob_alone_def using that le_refl by (rule alone_finishes)
  have run': "?s' = run (replicate (pc_size (procs s j)) (Resume j now world)) s"
    unfolding processJob_alone_def by (rule alone_as_run)
  have inv': "sys_inv ?s'" unfolding run' using inv by (rule sys_inv_run_from)
  from run_frame[OF inv, of _ _ "replicate (pc_size (procs s j)) (Resume j now world)" j job] jj
  obtain job' where j': "map_of (jobs (storage ?s')) j = Some job'"
    unfolding run' by blast
  have 4: "\<exists>job'. getPdfJob (storage ?s') j = Some job' \<and> job_status job' = Completed"
    if fin: "procs ?s' j = Finished"
  proof -
    have "job_status job' = Completed"
      using inv' fin j' unfolding sys_inv_def proc_inv_def by blast
    with j' show ?thesis by (simp add: getPdfJob_def)
  qed
  have 5: "\<forall>row \<in> set (getPdfFilesByJobId (storage ?s') j). terminal (file_status row)"
    if fin: "procs ?s' j = Finished"
    using returned_files_terminal[OF inv' fin] .
  from 1 2 3 4 5 show ?thesis by blast
qed

theorem job_completed_after_files_terminal_witness:
  "getPdfJob (storage (run [ex_upload] initial)) 1 = Some ex_job \<and>
   job_status ex_job = Processing \<and>
   list_all (\<lambda>g. ex_world_fails (file_id g) \<noteq> NeverSettles)
     (pc_files (procs (run [ex_upload] initial) 1)) \<and>
   procs (processJob_alone 9 ex_world_fails 1 (run [ex_upload] initial)) 1 = Finished \<and>
   (\<exists>job'. getPdfJob (storage (processJob_alone 9 ex_world_fails 1 (run [ex_upload] initial))) 1
             = Some job' \<and> job_status job' = Completed) \<and>
   list_all (\<lambda>row. terminal (file_status row))
     (getPdfFilesByJobId
        (storage (processJob_alone 9 ex_world_fails 1 (run [ex_upload] initial))) 1) \<and>
   getPdfJob (storage (run ex_full_run initial)) 1 = Some ex_job_done \<and>
   job_status ex_job_done = Completed \<and>
   procs (run ex_full_run initial) 1 = Finished \<and>
   list_all (\<lambda>row. terminal (file_status row))
     (getPdfFilesByJobId (storage (run ex_full_run initial)) 1)"
proof -
  have h: "getPdfJob (storage (run [ex_upload] initial)) 1 = Some ex_job"
    by (simp add: ex_run_upload ex_uploaded_def getPdfJob_def)
  have p: "job_status ex_job = Processing" by (simp add: ex_job_def)
  have c: "job_status ex_job_done = Completed" by (simp add: ex_job_done_def)
  have w: "\<forall>g \<in> set (pc_files (procs (run [ex_upload] initial) 1)).
             ex_world_fails (file_id g) \<noteq> NeverSettles"
    by (simp add: ex_world_fails_def)
  from job_completed_after_files_terminal[OF refl h,
         where now = 9 and world = ex_world_fails]
       job_completed_after_files_terminal[OF refl ex_full_run_job,
         where now = 9 and world = ex_world_fails]
       h p c w ex_full_run_job
  show ?thesis unfolding list_all_iff by blast
qed

section \<open>A failed conversion and the other files\<close>

text \<open>
  What \<open>processJob\<close> does with a conversion that fails by throwing. In every state the
  server can reach, if the conversions of the Files an invocation still has ahead
  settle, the invocation run on returns, and each of these Files ends in the state
  its own conversion decides, whatever the conversions of the other Files do: failed
  with the error message of \<open>processFile\<close> if its conversion throws; completed
  otherwise, with the \<open>error\<close> it had before, so the message of a failed File is
  written on that File only.
\<close>

lemma thrown_failure_stays_with_its_file:
  assumes "s = run events initial" and "g \<in> set (pc_files (procs s j))"
    and "\<forall>h \<in> set (pc_files (procs s j)). world (file_id h) \<noteq> NeverSettles"
    and "getPdfFile (storage s) (file_id g) = Some row0"
  shows "procs (processJob_alone now world j s) j = Finished \<and>
         (\<exists>row. getPdfFile (storage (processJob_alone now world j s)) (file_id g) = Some row \<and>
            (if world (file_id g) = FsThrows
             then file_status row = Failed \<and> error row = Some msg_process_failed
             else file_status row = Completed \<and> error row = error row0))"
proof -
  have inv: "sys_inv s" using assms(1) sys_inv_run by simp
  have r0: "map_of (files (storage s)) (file_id g) = Some row0"
    using assms(4) by (simp add: getPdfFile_def)
  have "procs (processJob_alone now world j s) j = Finished"
    unfolding processJob_alone_def using assms(3) le_refl by (rule alone_finishes)
  moreover from alone_outcome[OF inv assms(2) assms(3) le_refl r0, of now]
  have "\<exists>row. getPdfFile (storage (processJob_alone now world j s)) (file_id g) = Some row \<and>
            (if world (file_id g) = FsThrows
             then file_status row = Failed \<and> error row = Some msg_process_failed
             else file_status row = Completed \<and> error row = error row0)"
    unfolding processJob_alone_def getPdfFile_def .
  ultimately show ?thesis ..
qed

text \<open>
  The lemma at a concrete run: two files are uploaded as job 1, the conversion of
  file 1 throws and the conversion of file 2 succeeds. File 1 ends failed with the
  error message, file 2 ends completed with no error, and \<open>processJob\<close> returns.
\<close>

lemma thrown_failure_example:
  "procs (processJob_alone 9 ex_world_first_fails 1 (run [ex_upload_two] initial)) 1 = Finished \<and>
   (\<exists>row. getPdfFile (storage (processJob_alone 9 ex_world_first_fails 1
                                  (run [ex_upload_two] initial))) (file_id ex_row) = Some row \<and>
          file_status row = Failed \<and> error row = Some msg_process_failed) \<and>
   (\<exists>row. getPdfFile (storage (processJob_alone 9 ex_world_first_fails 1
                                  (run [ex_upload_two] initial))) (file_id ex_row2) = Some row \<and>
          file_status row = Completed \<and> error row = None)"
proof -
  have m1: "ex_row \<in> set (pc_files (procs (run [ex_upload_two] initial) 1))"
    and m2: "ex_row2 \<in> set (pc_files (procs (run [ex_upload_two] initial) 1))"
    and st: "\<forall>h \<in> set (pc_files (procs (run [ex_upload_two] initial) 1)).
               ex_world_first_fails (file_id h) \<noteq> NeverSettles"
    unfolding ex_two_uploaded by (simp_all add: ex_world_first_fails_def)
  have r1: "getPdfFile (storage (run [ex_upload_two] initial)) (file_id ex_row) = Some ex_row"
    and r2: "getPdfFile (storage (run [ex_upload_two] initial)) (file_id ex_row2) = Some ex_row2"
    by (simp_all add: run_def ex_upload_two_def ex_file_def ex_row_def ex_row2_def eval_defs)
  have w: "ex_world_first_fails (file_id ex_row) = FsThrows"
    "ex_world_first_fails (file_id ex_row2) \<noteq> FsThrows"
    "error ex_row2 = None"
    by (simp_all add: ex_world_first_fails_def ex_row_def ex_row2_def)
  from thrown_failure_stays_with_its_file[OF refl m1 st r1, of 9]
       thrown_failure_stays_with_its_file[OF refl m2 st r2, of 9]
       w
  show ?thesis by auto
qed

text \<open>
  C6 at a concrete run. Two files are uploaded as job 1. For file 1 Ghostscript fails
  and the write stream of the fallback fails, so \<open>processFile\<close> never settles: this
  failure of the Converter is neither returned nor thrown. \<open>processJob\<close>, run as far
  as it ever gets, is still inside \<open>processFile\<close> for file 1, and a further stretch
  changes nothing. File 1 stays processing at 90 percent with no error recorded, file
  2 stays pending at 0 percent, and job 1 stays processing. So the failure is not
  recorded on the File, and the sibling File is never processed.
\<close>

theorem unsettled_conversion_blocks_the_job:
  "ex_world_first_unsettled (file_id ex_row) = NeverSettles \<and>
   procs (processJob_alone 9 ex_world_first_unsettled 1 (run [ex_upload_two] initial)) 1 =
     InProcessFile ex_row ex_options [] [ex_row2] \<and>
   step (Resume 1 9 ex_world_first_unsettled)
     (processJob_alone 9 ex_world_first_unsettled 1 (run [ex_upload_two] initial))
     = processJob_alone 9 ex_world_first_unsettled 1 (run [ex_upload_two] initial) \<and>
   map file_status
     (getPdfFilesByJobId
        (storage (processJob_alone 9 ex_world_first_unsettled 1 (run [ex_upload_two] initial))) 1)
     = [Processing, Pending] \<and>
   map error
     (getPdfFilesByJobId
        (storage (processJob_alone 9 ex_world_first_unsettled 1 (run [ex_upload_two] initial))) 1)
     = [None, None] \<and>
   map progress
     (getPdfFilesByJobId
        (storage (processJob_alone 9 ex_world_first_unsettled 1 (run [ex_upload_two] initial))) 1)
     = [Some 90, Some 0] \<and>
   map_option job_status
     (getPdfJob
        (storage (processJob_alone 9 ex_world_first_unsettled 1 (run [ex_upload_two] initial))) 1)
     = Some Processing"
proof -
  have w: "ex_world_first_unsettled (file_id ex_row) = NeverSettles"
    by (simp add: ex_world_first_unsettled_def ex_row_def)
  have "step (Resume 1 9 ex_world_first_unsettled)
     (processJob_alone 9 ex_world_first_unsettled 1 (run [ex_upload_two] initial))
     = processJob_alone 9 ex_world_first_unsettled 1 (run [ex_upload_two] initial)"
    using ex_two_unsettled(1) w by (rule step_resume_unsettled)
  moreover have "map file_status
     (getPdfFilesByJobId
        (storage (processJob_alone 9 ex_world_first_unsettled 1 (run [ex_upload_two] initial))) 1)
     = [Processing, Pending]"
   "map error
     (getPdfFilesByJobId
        (storage (processJob_alone 9 ex_world_first_unsettled 1 (run [ex_upload_two] initial))) 1)
     = [None, None]"
   "map progress
     (getPdfFilesByJobId
        (storage (processJob_alone 9 ex_world_first_unsettled 1 (run [ex_upload_two] initial))) 1)
     = [Some 90, Some 0]"
   "map_option job_status
     (getPdfJob
        (storage (processJob_alone 9 ex_world_first_unsettled 1 (run [ex_upload_two] initial))) 1)
     = Some Processing"
    unfolding ex_two_unsettled(2)
    by (simp_all add: getPdfFilesByJobId_def getPdfJob_def ex_row_def ex_row2_def ex_job_def)
  ultimately show ?thesis using ex_two_unsettled(1) w by simp
qed

section \<open>Cancellation and the running processJob\<close>

text \<open>
  C2 at a concrete run: job 1 is cancelled while its file is being converted; job and
  file are failed. \<open>processJob\<close> is not stopped: when it runs on, the file is set to
  completed and the job to completed. So a terminal status (failed, after
  cancellation) does change again.
\<close>

theorem cancelled_job_is_processed_on:
  "map_option job_status (getPdfJob (storage (run ex_cancel_run initial)) 1) = Some Failed \<and>
   map_option file_status (getPdfFile (storage (run ex_cancel_run initial)) 1) = Some Failed \<and>
   map_option job_status
     (getPdfJob (storage (processJob_alone 9 ex_world_ok 1 (run ex_cancel_run initial))) 1)
     = Some Completed \<and>
   map_option file_status
     (getPdfFile (storage (processJob_alone 9 ex_world_ok 1 (run ex_cancel_run initial))) 1)
     = Some Completed"
  unfolding ex_cancel_run_def run_def
  by (simp only: fold.simps comp_def ex_step_upload)
     (simp add: ex_defs run_defs eval_defs)

end
